theory Spec2Isabelle
  imports Main "HOL-Library.Sublist"
begin

section \<open>Python string operations used by the setting codecs\<close>

text \<open>
  Strings are character lists. \<open>find_sub sub s\<close> is \<^verbatim>\<open>s.find(sub)\<close> (the index of the
  first occurrence, \<open>None\<close> for Python's -1); the empty string is found at index 0.
\<close>

fun find_sub :: "string \<Rightarrow> string \<Rightarrow> nat option" where
  "find_sub sub [] = (if sub = [] then Some 0 else None)"
| "find_sub sub (c # cs) =
     (if prefix sub (c # cs) then Some 0 else map_option Suc (find_sub sub cs))"

text \<open>\<^verbatim>\<open>sub in s\<close>\<close>

definition contains :: "string \<Rightarrow> string \<Rightarrow> bool" where
  "contains sub s = (find_sub sub s \<noteq> None)"

text \<open>\<^verbatim>\<open>s.replace(old, new, 1)\<close>: only the first occurrence is replaced.\<close>

definition replace1 :: "string \<Rightarrow> string \<Rightarrow> string \<Rightarrow> string" where
  "replace1 s old new =
     (case find_sub old s of
        None \<Rightarrow> s
      | Some i \<Rightarrow> take i s @ new @ drop (i + length old) s)"

text \<open>
  \<^verbatim>\<open>s.replace(old, new)\<close>: every non-overlapping occurrence, left to right. With an empty
  \<open>old\<close> Python inserts \<open>new\<close> before every character and at the end.
\<close>

function replace_scan :: "string \<Rightarrow> string \<Rightarrow> string \<Rightarrow> string" where
  "replace_scan old new s =
     (if s = [] then []
      else if old \<noteq> [] \<and> prefix old s then new @ replace_scan old new (drop (length old) s)
      else hd s # replace_scan old new (tl s))"
  by pat_completeness auto
termination
  by (relation "measure (\<lambda>(old, new, s). length s)") auto

declare replace_scan.simps [simp del]

definition replace_all :: "string \<Rightarrow> string \<Rightarrow> string \<Rightarrow> string" where
  "replace_all s old new =
     (if old = [] then new @ concat (map (\<lambda>c. c # new) s) else replace_scan old new s)"

text \<open>Slices \<^verbatim>\<open>s[:i]\<close> and \<^verbatim>\<open>s[i:]\<close>; a negative index counts from the end.\<close>

definition slice_to :: "int \<Rightarrow> string \<Rightarrow> string" where
  "slice_to i s = (if i < 0 then take (length s - nat (- i)) s else take (nat i) s)"

definition slice_from :: "int \<Rightarrow> string \<Rightarrow> string" where
  "slice_from i s = (if i < 0 then drop (length s - nat (- i)) s else drop (nat i) s)"

section \<open>Regular expressions\<close>

text \<open>
  The patterns of the descriptor table are written as syntax trees of the constructs they
  use. \<open>Sym p\<close> is one character of a class, \<open>Lits w\<close> a literal string, \<open>Star\<close> and
  \<open>LStar\<close> the greedy and the lazy repetition (\<^verbatim>\<open>r*\<close>, \<^verbatim>\<open>r*?\<close>), \<open>Group n r\<close> the
  capturing group number \<open>n\<close>. Anchors, look-around and back-references do not occur in
  the table and are not part of the syntax.
\<close>

datatype re =
    Sym "char \<Rightarrow> bool"
  | Lits string
  | Seq re re
  | Alt re re
  | Star re
  | LStar re
  | Group nat re

definition Plus :: "re \<Rightarrow> re" where "Plus r = Seq r (Star r)"
definition LPlus :: "re \<Rightarrow> re" where "LPlus r = Seq r (LStar r)"
definition Opt :: "re \<Rightarrow> re" where "Opt r = Alt r (Lits [])"

definition dot :: "char \<Rightarrow> bool" where "dot c = (c \<noteq> CHR 0x0A)"
definition one_of :: "string \<Rightarrow> char \<Rightarrow> bool" where "one_of cs c = (c \<in> set cs)"
definition none_of :: "string \<Rightarrow> char \<Rightarrow> bool" where "none_of cs c = (c \<notin> set cs)"
definition digit :: "char \<Rightarrow> bool" where "digit c = (c \<in> set ''0123456789'')"
definition any_char :: "char \<Rightarrow> bool" where "any_char c = True"

fun seqs :: "re list \<Rightarrow> re" where
  "seqs [] = Lits []"
| "seqs [r] = r"
| "seqs (r # rs) = Seq r (seqs rs)"

type_synonym caps = "nat \<Rightarrow> (nat \<times> nat) option"

text \<open>
  \<open>ms r s c\<close> lists every way \<open>r\<close> matches a prefix of \<open>s\<close>, in the order a backtracking
  matcher tries them: each result is the rest of the input with the groups captured so
  far. A group's span is kept as the lengths of the input left at its start and end. An
  iteration of a repetition that consumes nothing is not repeated.
\<close>

function ms :: "re \<Rightarrow> string \<Rightarrow> caps \<Rightarrow> (string \<times> caps) list" where
  "ms (Sym p) s c = (case s of [] \<Rightarrow> [] | x # xs \<Rightarrow> if p x then [(xs, c)] else [])"
| "ms (Lits w) s c = (if prefix w s then [(drop (length w) s, c)] else [])"
| "ms (Seq a b) s c = concat (map (\<lambda>(s', c'). ms b s' c') (ms a s c))"
| "ms (Alt a b) s c = ms a s c @ ms b s c"
| "ms (Star a) s c =
     concat (map (\<lambda>(s', c'). if length s' < length s then ms (Star a) s' c' else [])
       (ms a s c)) @ [(s, c)]"
| "ms (LStar a) s c =
     (s, c) # concat (map (\<lambda>(s', c'). if length s' < length s then ms (LStar a) s' c' else [])
       (ms a s c))"
| "ms (Group n a) s c = map (\<lambda>(s', c'). (s', c'(n \<mapsto> (length s, length s')))) (ms a s c)"
  by pat_completeness auto
termination
  by (relation "measures [\<lambda>(r, s, c). size r, \<lambda>(r, s, c). length s]") auto

declare ms.simps(5,6) [simp del]

text \<open>\<open>accepts r w\<close>: the pattern can consume exactly \<open>w\<close>, whatever follows it.\<close>

definition accepts :: "re \<Rightarrow> string \<Rightarrow> bool" where
  "accepts r w = (\<forall>t c0. \<exists>c''. (t, c'') \<in> set (ms r (w @ t) c0))"

record rematch =
  m_start :: nat
  m_end :: nat
  m_caps :: caps

text \<open>
  \<^verbatim>\<open>re.search(pattern, text)\<close>: the first match at the leftmost position that has one.
  \<open>search_from r n s\<close> scans the suffix \<open>s\<close> of a text of length \<open>n\<close>.
\<close>

fun search_from :: "re \<Rightarrow> nat \<Rightarrow> string \<Rightarrow> rematch option" where
  "search_from r n s =
     (case ms r s (\<lambda>_. None) of
        (rest, c) # _ \<Rightarrow>
          Some \<lparr>m_start = n - length s, m_end = n - length rest,
                m_caps = (\<lambda>g. map_option (\<lambda>(a, b). (n - a, n - b)) (c g))\<rparr>
      | [] \<Rightarrow> (case s of [] \<Rightarrow> None | _ # xs \<Rightarrow> search_from r n xs))"

definition re_search :: "re \<Rightarrow> string \<Rightarrow> rematch option" where
  "re_search r text = search_from r (length text) text"

text \<open>\<^verbatim>\<open>m.group(0)\<close>\<close>

definition group0 :: "rematch \<Rightarrow> string \<Rightarrow> string" where
  "group0 m text = take (m_end m - m_start m) (drop (m_start m) text)"


fun has_group :: "nat \<Rightarrow> re \<Rightarrow> bool" where
  "has_group n (Sym p) = False"
| "has_group n (Lits w) = False"
| "has_group n (Seq a b) = (has_group n a \<or> has_group n b)"
| "has_group n (Alt a b) = (has_group n a \<or> has_group n b)"
| "has_group n (Star a) = has_group n a"
| "has_group n (LStar a) = has_group n a"
| "has_group n (Group k a) = (k = n \<or> has_group n a)"

section \<open>Values, exceptions and setting descriptors\<close>

text \<open>The values a setting can hold (Python's \<^verbatim>\<open>Any\<close>, as far as the codecs use it).\<close>

datatype pyval = VNone | VBool bool | VStr string | VInt int

datatype parse_info =
    CouldNotFind string string string
  | ErrorInvolving "(string \<times> string) list" string

text \<open>
  \<open>NotetypeParseException\<close> is the exception class of the source; the others are the
  built-in exceptions its statements raise. \<open>CouldNotFind name file notetype\<close> and
  \<open>ErrorInvolving pairs section\<close> carry what the two messages of the source are formatted
  from. \<open>Exception\<close> is the plain exception of \<open>from_config\<close>, with its message.
\<close>

datatype error =
    NotetypeParseException parse_info
  | AttributeError
  | IndexError
  | AssertionError
  | ValueError
  | TypeError
  | KeyError
  | Exception string

text \<open>
  A descriptor (the \<^verbatim>\<open>config\<close> dict of a setting). A key that only some descriptors
  have is an option. The pattern under \<^verbatim>\<open>"regex"\<close> is kept as its syntax tree; the keys
  \<^verbatim>\<open>"type"\<close> and \<^verbatim>\<open>"file"\<close> are the fields \<open>ctype\<close> and \<open>cfile\<close>.
\<close>

record config =
  name :: string
  setting_name :: string
  ctype :: string
  cfile :: string
  regex :: re
  replacement_pairs :: "(string \<times> string) list option"
  options :: "string list option"
  with_inherit_option :: "bool option"
  hint_button_setting :: "string option"
  configurable_field_name :: "string option"

datatype setting =
    CheckboxSetting config
  | ReCheckboxSetting config
  | LineEditSetting config
  | NumberEditSetting config
  | ShortcutSetting config
  | DropdownSetting config
  | ColorSetting config
  | FontFamilySetting config

fun config_of :: "setting \<Rightarrow> config" where
  "config_of (CheckboxSetting c) = c"
| "config_of (ReCheckboxSetting c) = c"
| "config_of (LineEditSetting c) = c"
| "config_of (NumberEditSetting c) = c"
| "config_of (ShortcutSetting c) = c"
| "config_of (DropdownSetting c) = c"
| "config_of (ColorSetting c) = c"
| "config_of (FontFamilySetting c) = c"

definition from_config :: "config \<Rightarrow> error + setting" where
  "from_config cfg =
     (if ctype cfg = ''checkbox'' then Inr (CheckboxSetting cfg)
      else if ctype cfg = ''re_checkbox'' then Inr (ReCheckboxSetting cfg)
      else if ctype cfg = ''text'' then Inr (LineEditSetting cfg)
      else if ctype cfg = ''number'' then Inr (NumberEditSetting cfg)
      else if ctype cfg = ''shortcut'' then Inr (ShortcutSetting cfg)
      else if ctype cfg = ''dropdown'' then Inr (DropdownSetting cfg)
      else if ctype cfg = ''color'' then Inr (ColorSetting cfg)
      else if ctype cfg = ''font_family'' then Inr (FontFamilySetting cfg)
      else Inl (Exception (''unkown NoteTypeSetting type: '' @ ctype cfg)))"

subsection \<open>Python conversions\<close>

text \<open>Truthiness of a value (\<^verbatim>\<open>if setting_value\<close>).\<close>

fun truthy :: "pyval \<Rightarrow> bool" where
  "truthy VNone = False"
| "truthy (VBool b) = b"
| "truthy (VStr s) = (s \<noteq> [])"
| "truthy (VInt i) = (i \<noteq> 0)"

definition digit_char :: "nat \<Rightarrow> char" where
  "digit_char d = ''0123456789'' ! d"

function dec :: "nat \<Rightarrow> string" where
  "dec n = (if n < 10 then [digit_char n] else dec (n div 10) @ [digit_char (n mod 10)])"
  by pat_completeness auto
termination
  by (relation "measure id") auto

declare dec.simps [simp del]

text \<open>\<^verbatim>\<open>str(i)\<close> of an integer.\<close>

definition str_int :: "int \<Rightarrow> string" where
  "str_int i = (if i < 0 then CHR ''-'' # dec (nat (- i)) else dec (nat i))"

fun py_str :: "pyval \<Rightarrow> string" where
  "py_str VNone = ''None''"
| "py_str (VBool b) = (if b then ''True'' else ''False'')"
| "py_str (VStr s) = s"
| "py_str (VInt i) = str_int i"

text \<open>
  \<^verbatim>\<open>int(s)\<close> of a string, on ASCII: white space around the literal is stripped, a sign
  may lead, and the digits may be grouped by single underscores. Anything else is a
  \<open>ValueError\<close> (\<open>None\<close> here).
\<close>

definition is_space :: "char \<Rightarrow> bool" where
  "is_space c = (c \<in> set [CHR 0x20, CHR 0x09, CHR 0x0A, CHR 0x0B, CHR 0x0C, CHR 0x0D,
                           CHR 0x1C, CHR 0x1D, CHR 0x1E, CHR 0x1F])"

definition strip :: "string \<Rightarrow> string" where
  "strip s = rev (dropWhile is_space (rev (dropWhile is_space s)))"

definition digit_val :: "char \<Rightarrow> nat" where
  "digit_val c = of_char c - 48"

text \<open>
  \<open>digits_val acc prev s\<close> reads digits and underscores; \<open>prev\<close> says that the character
  before was a digit (an underscore must stand between two digits).
\<close>

fun digits_val :: "nat \<Rightarrow> bool \<Rightarrow> string \<Rightarrow> nat option" where
  "digits_val acc prev [] = (if prev then Some acc else None)"
| "digits_val acc prev (c # cs) =
     (if digit c then digits_val (10 * acc + digit_val c) True cs
      else if c = CHR ''_'' \<and> prev then digits_val acc False cs
      else None)"

definition py_int :: "string \<Rightarrow> int option" where
  "py_int s =
     (case strip s of
        [] \<Rightarrow> None
      | c # cs \<Rightarrow>
          if c = CHR ''-'' then map_option (\<lambda>n. - int n) (digits_val 0 False cs)
          else if c = CHR ''+'' then map_option int (digits_val 0 False cs)
          else map_option int (digits_val 0 False (c # cs)))"

subsection \<open>Reading the match of a descriptor's pattern\<close>

text \<open>
  \<^verbatim>\<open>re.search(regex, section).group(1)\<close>: \<open>AttributeError\<close> when nothing matches (the
  method is called on \<^verbatim>\<open>None\<close>), \<open>IndexError\<close> when the pattern has no group 1, and the
  value \<^verbatim>\<open>None\<close> when group 1 took no part in the match.
\<close>

definition search_group1 :: "re \<Rightarrow> string \<Rightarrow> error + pyval" where
  "search_group1 r section =
     (case re_search r section of
        None \<Rightarrow> Inl AttributeError
      | Some m \<Rightarrow>
          if \<not> has_group 1 r then Inl IndexError
          else (case m_caps m 1 of
                  None \<Rightarrow> Inr VNone
                | Some (a, b) \<Rightarrow> Inr (VStr (take (b - a) (drop a section)))))"

text \<open>\<^verbatim>\<open>re.search(regex, section).span(1)\<close>; \<open>(-1, -1)\<close> for a group that took no part.\<close>

definition search_span1 :: "re \<Rightarrow> string \<Rightarrow> error + (int \<times> int)" where
  "search_span1 r section =
     (case re_search r section of
        None \<Rightarrow> Inl AttributeError
      | Some m \<Rightarrow>
          if \<not> has_group 1 r then Inl IndexError
          else (case m_caps m 1 of
                  None \<Rightarrow> Inr (- 1, - 1)
                | Some (a, b) \<Rightarrow> Inr (int a, int b)))"


text \<open>
  \<open>span1 r s\<close> is the span of group 1 in the first match of \<open>r\<close> in \<open>s\<close>, when there is a
  match and group 1 took part in it.
\<close>

definition span1 :: "re \<Rightarrow> string \<Rightarrow> (nat \<times> nat) option" where
  "span1 r s =
     (case re_search r s of
        None \<Rightarrow> None
      | Some m \<Rightarrow> if has_group 1 r then m_caps m 1 else None)"

section \<open>The codecs\<close>

text \<open>
  Each class of the source has \<^verbatim>\<open>_extract_setting_value\<close> (decode) and
  \<^verbatim>\<open>_set_setting_value\<close> (encode). A key of the descriptor that is absent raises
  \<open>KeyError\<close>; an operation on a value of the wrong type raises \<open>TypeError\<close>.
\<close>

subsection \<open>ReCheckboxSetting\<close>

definition ReCheckbox_extract_setting_value :: "config \<Rightarrow> string \<Rightarrow> error + pyval" where
  "ReCheckbox_extract_setting_value cfg section =
     (case replacement_pairs cfg of
        None \<Rightarrow> Inl KeyError
      | Some pairs \<Rightarrow>
          (let checked = list_all (\<lambda>(x, y). contains y section) pairs;
               unchecked = list_all (\<lambda>(x, y). contains x section) pairs
           in if \<not> ((checked \<or> unchecked) \<and> \<not> (checked \<and> unchecked))
              then Inl (NotetypeParseException (ErrorInvolving pairs section))
              else Inr (VBool checked)))"

fun replace_pairs :: "bool \<Rightarrow> (string \<times> string) list \<Rightarrow> string \<Rightarrow> string" where
  "replace_pairs on [] result = result"
| "replace_pairs on ((x, y) # pairs) result =
     replace_pairs on pairs (if on then replace_all result x y else replace_all result y x)"

definition ReCheckbox_set_setting_value :: "config \<Rightarrow> string \<Rightarrow> pyval \<Rightarrow> error + string" where
  "ReCheckbox_set_setting_value cfg section setting_value =
     (case replacement_pairs cfg of
        None \<Rightarrow> Inl KeyError
      | Some pairs \<Rightarrow> Inr (replace_pairs (truthy setting_value) pairs section))"

subsection \<open>CheckboxSetting\<close>

definition Checkbox_extract_setting_value :: "config \<Rightarrow> string \<Rightarrow> error + pyval" where
  "Checkbox_extract_setting_value cfg section =
     (case search_group1 (regex cfg) section of
        Inl e \<Rightarrow> Inl e
      | Inr v \<Rightarrow>
          if v = VStr ''true'' \<or> v = VStr ''false'' then Inr (VBool (v = VStr ''true''))
          else Inl AssertionError)"

definition Checkbox_set_setting_value :: "config \<Rightarrow> string \<Rightarrow> pyval \<Rightarrow> error + string" where
  "Checkbox_set_setting_value cfg section setting_value =
     (case Checkbox_extract_setting_value cfg section of
        Inl e \<Rightarrow> Inl e
      | Inr current_value \<Rightarrow>
          (let current_value_str = (if truthy current_value then ''true'' else ''false'');
               new_value_str = (if truthy setting_value then ''true'' else ''false'')
           in Inr (replace1 section current_value_str new_value_str)))"

subsection \<open>LineEditSetting, FontFamilySetting, ShortcutSetting\<close>

text \<open>The three classes have the same two methods: the span of group 1 is replaced.\<close>

definition LineEdit_extract_setting_value :: "config \<Rightarrow> string \<Rightarrow> error + pyval" where
  "LineEdit_extract_setting_value cfg section = search_group1 (regex cfg) section"

definition LineEdit_set_setting_value :: "config \<Rightarrow> string \<Rightarrow> pyval \<Rightarrow> error + string" where
  "LineEdit_set_setting_value cfg section setting_value =
     (case search_span1 (regex cfg) section of
        Inl e \<Rightarrow> Inl e
      | Inr (start, end) \<Rightarrow>
          (case setting_value of
             VStr v \<Rightarrow> Inr (slice_to start section @ v @ slice_from end section)
           | _ \<Rightarrow> Inl TypeError))"

subsection \<open>DropdownSetting\<close>

definition Dropdown_extract_setting_value :: "config \<Rightarrow> string \<Rightarrow> error + pyval" where
  "Dropdown_extract_setting_value cfg section = search_group1 (regex cfg) section"

text \<open>\<^verbatim>\<open>section.replace(a, b, 1)\<close> on values: both arguments have to be strings.\<close>

definition replace1_val :: "string \<Rightarrow> pyval \<Rightarrow> pyval \<Rightarrow> error + string" where
  "replace1_val section a b =
     (case (a, b) of
        (VStr old, VStr new) \<Rightarrow> Inr (replace1 section old new)
      | _ \<Rightarrow> Inl TypeError)"

definition Dropdown_set_setting_value :: "config \<Rightarrow> string \<Rightarrow> pyval \<Rightarrow> error + string" where
  "Dropdown_set_setting_value cfg section setting_value =
     (case Dropdown_extract_setting_value cfg section of
        Inl e \<Rightarrow> Inl e
      | Inr current_value \<Rightarrow> replace1_val section current_value setting_value)"

subsection \<open>ColorSetting\<close>

text \<open>\<^verbatim>\<open>config.get("with_inherit_option", False)\<close>\<close>

definition inherit_enabled :: "config \<Rightarrow> bool" where
  "inherit_enabled cfg = (case with_inherit_option cfg of None \<Rightarrow> False | Some b \<Rightarrow> b)"

definition Color_extract_setting_value :: "config \<Rightarrow> string \<Rightarrow> error + pyval" where
  "Color_extract_setting_value cfg section =
     (case search_group1 (regex cfg) section of
        Inl e \<Rightarrow> Inl e
      | Inr color_str \<Rightarrow>
          if inherit_enabled cfg \<and> py_str color_str \<noteq> ''transparent''
          then Inr (VStr ''inherit'')
          else Inr color_str)"

definition Color_set_setting_value :: "config \<Rightarrow> string \<Rightarrow> pyval \<Rightarrow> error + string" where
  "Color_set_setting_value cfg section setting_value =
     (case Color_extract_setting_value cfg section of
        Inl e \<Rightarrow> Inl e
      | Inr current_value \<Rightarrow>
          if inherit_enabled cfg \<and> setting_value \<noteq> VStr ''transparent''
          then replace1_val section current_value (VStr ''inherit'')
          else replace1_val section current_value setting_value)"

subsection \<open>NumberEditSetting\<close>

definition NumberEdit_extract_setting_value :: "config \<Rightarrow> string \<Rightarrow> error + pyval" where
  "NumberEdit_extract_setting_value cfg section =
     (case search_group1 (regex cfg) section of
        Inl e \<Rightarrow> Inl e
      | Inr (VStr value_str) \<Rightarrow>
          (case py_int value_str of None \<Rightarrow> Inl ValueError | Some i \<Rightarrow> Inr (VInt i))
      | Inr _ \<Rightarrow> Inl TypeError)"

definition NumberEdit_set_setting_value :: "config \<Rightarrow> string \<Rightarrow> pyval \<Rightarrow> error + string" where
  "NumberEdit_set_setting_value cfg section setting_value =
     (case NumberEdit_extract_setting_value cfg section of
        Inl e \<Rightarrow> Inl e
      | Inr current_value \<Rightarrow>
          Inr (replace1 section (py_str current_value) (py_str setting_value)))"

subsection \<open>Dispatch on the class of the setting\<close>

fun extract_setting_value :: "setting \<Rightarrow> string \<Rightarrow> error + pyval" where
  "extract_setting_value (CheckboxSetting c) = Checkbox_extract_setting_value c"
| "extract_setting_value (ReCheckboxSetting c) = ReCheckbox_extract_setting_value c"
| "extract_setting_value (LineEditSetting c) = LineEdit_extract_setting_value c"
| "extract_setting_value (NumberEditSetting c) = NumberEdit_extract_setting_value c"
| "extract_setting_value (ShortcutSetting c) = LineEdit_extract_setting_value c"
| "extract_setting_value (DropdownSetting c) = Dropdown_extract_setting_value c"
| "extract_setting_value (ColorSetting c) = Color_extract_setting_value c"
| "extract_setting_value (FontFamilySetting c) = LineEdit_extract_setting_value c"

fun set_setting_value :: "setting \<Rightarrow> string \<Rightarrow> pyval \<Rightarrow> error + string" where
  "set_setting_value (CheckboxSetting c) = Checkbox_set_setting_value c"
| "set_setting_value (ReCheckboxSetting c) = ReCheckbox_set_setting_value c"
| "set_setting_value (LineEditSetting c) = LineEdit_set_setting_value c"
| "set_setting_value (NumberEditSetting c) = NumberEdit_set_setting_value c"
| "set_setting_value (ShortcutSetting c) = LineEdit_set_setting_value c"
| "set_setting_value (DropdownSetting c) = Dropdown_set_setting_value c"
| "set_setting_value (ColorSetting c) = Color_set_setting_value c"
| "set_setting_value (FontFamilySetting c) = LineEdit_set_setting_value c"

section \<open>Descriptors of the table\<close>

text \<open>
  The entries of \<^verbatim>\<open>setting_configs\<close> that the theorems below are evaluated on, with the
  pattern of each as a comment. The key of an entry is stored under \<^verbatim>\<open>"name"\<close> by the
  table's last loop and under \<^verbatim>\<open>"setting_name"\<close> by \<^verbatim>\<open>ntss_for_notetype\<close>.
\<close>

definition base_config :: "string \<Rightarrow> string \<Rightarrow> string \<Rightarrow> re \<Rightarrow> config" where
  "base_config key type_tag target r =
     \<lparr>name = key, setting_name = key, ctype = type_tag, cfile = target, regex = r,
      replacement_pairs = None, options = None, with_inherit_option = None,
      hint_button_setting = None, configurable_field_name = None\<rparr>"

text \<open>\<^verbatim>\<open>[\w\W]*\<close>\<close>

definition field_order :: config where
  "field_order = base_config ''field_order'' ''order'' ''back'' (Star (Sym any_char))"

text \<open>\<^verbatim>\<open>var +autoflip += +(false|true)\<close>\<close>

definition autoflip :: config where
  "autoflip = base_config ''autoflip'' ''checkbox'' ''front''
     (seqs [Lits ''var'', Plus (Lits '' ''), Lits ''autoflip'', Plus (Lits '' ''), Lits ''='',
            Plus (Lits '' ''), Group 1 (Alt (Lits ''false'') (Lits ''true''))])"

text \<open>\<^verbatim>\<open>\.timer *{[^}]*?display: (block|none);\<close>\<close>

definition timer :: config where
  "timer = (base_config ''timer'' ''re_checkbox'' ''style''
     (seqs [Lits ''.timer'', Star (Lits '' ''), Lits ''{'', LStar (Sym (none_of ''}'')),
            Lits ''display: '', Group 1 (Alt (Lits ''block'') (Lits ''none'')), Lits '';'']))
     \<lparr>replacement_pairs := Some [(''none'', ''block'')]\<rparr>"

text \<open>\<^verbatim>\<open>var +seconds += +([^ /\n]*)\<close>\<close>

definition timer_secs :: config where
  "timer_secs = base_config ''timer_secs'' ''number'' ''front''
     (seqs [Lits ''var'', Plus (Lits '' ''), Lits ''seconds'', Plus (Lits '' ''), Lits ''='',
            Plus (Lits '' ''), Group 1 (Star (Sym (none_of [CHR '' '', CHR ''/'', CHR 0x0A])))])"

text \<open>\<^verbatim>\<open>html *{[^}]*?font-size: (\d+)px;\<close>\<close>

definition font_size :: config where
  "font_size = base_config ''font_size'' ''number'' ''style''
     (seqs [Lits ''html'', Star (Lits '' ''), Lits ''{'', LStar (Sym (none_of ''}'')),
            Lits ''font-size: '', Group 1 (Plus (Sym digit)), Lits ''px;''])"




text \<open>\<^verbatim>\<open>b *{[^}]*?color: (.+?)( +!important)?;\<close>\<close>

definition bold_text_color :: config where
  "bold_text_color = (base_config ''bold_text_color'' ''color'' ''style''
     (seqs [Lits ''b'', Star (Lits '' ''), Lits ''{'', LStar (Sym (none_of ''}'')),
            Lits ''color: '', Group 1 (LPlus (Sym dot)),
            Opt (Group 2 (Seq (Plus (Lits '' '')) (Lits ''!important''))), Lits '';'']))
     \<lparr>with_inherit_option := Some True\<rparr>"

text \<open>
  \<^verbatim>\<open>(<!--)?{{#NAME}}[\w\W]+?{{/NAME}}(-->)?\<close>, where \<^verbatim>\<open>NAME\<close> is the field name put into
  the pattern by the f-string (read here as a literal, which it is for a name without a
  character that is special in a pattern).
\<close>

definition disable_field_setting_config :: "string \<Rightarrow> bool \<Rightarrow> config" where
  "disable_field_setting_config field_name default_value =
     base_config [] ''wrap_checkbox'' ''back''
       (seqs [Opt (Group 1 (Lits ''<!--'')), Lits (''{{#'' @ field_name @ ''}}''),
              LPlus (Sym any_char), Lits (''{{/'' @ field_name @ ''}}''),
              Opt (Group 2 (Lits ''-->''))])"

text \<open>\<^verbatim>\<open>var+ ButtonAutoReveal *= *{[^}]*?"NAME" *: *(.+),\n\<close>\<close>

definition button_auto_reveal_setting_config :: "string \<Rightarrow> bool \<Rightarrow> config" where
  "button_auto_reveal_setting_config field_name default_value =
     (base_config [] ''checkbox'' ''back''
       (seqs [Lits ''va'', Plus (Lits ''r''), Lits '' ButtonAutoReveal'', Star (Lits '' ''),
              Lits ''='', Star (Lits '' ''), Lits ''{'', LStar (Sym (none_of ''}'')),
              Lits ([CHR 0x22] @ field_name @ [CHR 0x22]), Star (Lits '' ''), Lits '':'',
              Star (Lits '' ''), Group 1 (Plus (Sym dot)), Lits [CHR '','', CHR 0x0A]]))
     \<lparr>configurable_field_name := Some field_name\<rparr>"


section \<open>Note type models and the store\<close>

text \<open>
  A model (\<^verbatim>\<open>NotetypeDict\<close>) is a dict whose \<^verbatim>\<open>"tmpls"\<close> entry refers to a list object
  of template dicts. \<^verbatim>\<open>model.copy()\<close> is a shallow copy: the copy refers to the same list
  and the same template dicts. So a model is a value holding a reference, and the store
  holds the list objects and the template dicts. The front blob is \<^verbatim>\<open>tmpls[0]["qfmt"]\<close>,
  the back blob \<^verbatim>\<open>tmpls[0]["afmt"]\<close>, the style blob \<^verbatim>\<open>css\<close>; \<open>envelope\<close> stands for
  every other entry of the dict.
\<close>

record template =
  qfmt :: string
  afmt :: string

record store =
  lists :: "nat \<Rightarrow> nat list"
  dicts :: "nat \<Rightarrow> template"

record notetype =
  nt_name :: string
  tmpls :: nat
  css :: string
  envelope :: "(string \<times> string) list"

type_synonym conf = "string \<rightharpoonup> pyval"

text \<open>\<^verbatim>\<open>NoteTypeSetting.key\<close>\<close>

definition key :: "setting \<Rightarrow> string \<Rightarrow> string" where
  "key nts notetype_name = notetype_name @ ''.'' @ setting_name (config_of nts)"

text \<open>\<^verbatim>\<open>NoteTypeSetting._relevant_template_text\<close>\<close>

definition relevant_template_text :: "setting \<Rightarrow> store \<Rightarrow> notetype \<Rightarrow> error + string" where
  "relevant_template_text nts h model =
     (let templates = lists h (tmpls model) in
      if length templates \<noteq> 1 then Inl AssertionError
      else
        (let template = dicts h (hd templates) in
         if cfile (config_of nts) = ''front'' then Inr (qfmt template)
         else if cfile (config_of nts) = ''back'' then Inr (afmt template)
         else Inr (css model)))"

text \<open>\<^verbatim>\<open>NoteTypeSetting._relevant_template_section\<close>: the locator.\<close>

definition relevant_template_section :: "setting \<Rightarrow> store \<Rightarrow> notetype \<Rightarrow> error + string" where
  "relevant_template_section nts h model =
     (case relevant_template_text nts h model of
        Inl e \<Rightarrow> Inl e
      | Inr template_text \<Rightarrow>
          (case re_search (regex (config_of nts)) template_text of
             None \<Rightarrow>
               Inl (NotetypeParseException
                     (CouldNotFind (name (config_of nts)) (cfile (config_of nts)) (nt_name model)))
           | Some section_match \<Rightarrow> Inr (group0 section_match template_text)))"

text \<open>\<^verbatim>\<open>NoteTypeSetting.setting_value\<close>\<close>

definition setting_value :: "setting \<Rightarrow> store \<Rightarrow> notetype \<Rightarrow> error + pyval" where
  "setting_value nts h model =
     (case relevant_template_section nts h model of
        Inl e \<Rightarrow> Inl e
      | Inr section \<Rightarrow> extract_setting_value nts section)"

text \<open>
  \<^verbatim>\<open>NoteTypeSetting.updated_model\<close>. The result is the copy and the store after the call:
  an assignment to \<^verbatim>\<open>template["qfmt"]\<close> or \<^verbatim>\<open>template["afmt"]\<close> writes the template dict
  in the store, an assignment to \<^verbatim>\<open>result["css"]\<close> writes the copy.
\<close>

definition updated_model ::
  "setting \<Rightarrow> store \<Rightarrow> notetype \<Rightarrow> string \<Rightarrow> conf \<Rightarrow> error + (notetype \<times> store)" where
  "updated_model nts h model notetype_name cnf =
     (let result = model in
      case relevant_template_section nts h result of
        Inl e \<Rightarrow> Inl e
      | Inr section \<Rightarrow>
          (case cnf (key nts notetype_name) of
             None \<Rightarrow> Inl KeyError
           | Some v \<Rightarrow>
               (case set_setting_value nts section v of
                  Inl e \<Rightarrow> Inl e
                | Inr processed_section \<Rightarrow>
                    (case relevant_template_text nts h result of
                       Inl e \<Rightarrow> Inl e
                     | Inr template_text \<Rightarrow>
                         (let updated_text = replace1 template_text section processed_section;
                              templates = lists h (tmpls result)
                          in if length templates \<noteq> 1 then Inl AssertionError
                             else
                               (let t = hd templates in
                                if cfile (config_of nts) = ''front''
                                then Inr (result,
                                       h\<lparr>dicts := (dicts h)(t := (dicts h t)\<lparr>qfmt := updated_text\<rparr>)\<rparr>)
                                else if cfile (config_of nts) = ''back''
                                then Inr (result,
                                       h\<lparr>dicts := (dicts h)(t := (dicts h t)\<lparr>afmt := updated_text\<rparr>)\<rparr>)
                                else Inr (result\<lparr>css := updated_text\<rparr>, h)))))))"

text \<open>The three blobs of a model, read through the store.\<close>

definition front_blob :: "store \<Rightarrow> notetype \<Rightarrow> string" where
  "front_blob h model = qfmt (dicts h (hd (lists h (tmpls model))))"

definition back_blob :: "store \<Rightarrow> notetype \<Rightarrow> string" where
  "back_blob h model = afmt (dicts h (hd (lists h (tmpls model))))"

definition style_blob :: "store \<Rightarrow> notetype \<Rightarrow> string" where
  "style_blob h model = css model"

section \<open>Batch update and read-in\<close>

text \<open>
  \<^verbatim>\<open>safe_update_model\<close>: the loop keeps the last \<open>NotetypeParseException\<close>; any other
  exception leaves the function. The tooltips shown are the last component of the result
  (one tooltip when an exception was kept).
\<close>

fun safe_update_loop ::
  "setting list \<Rightarrow> store \<Rightarrow> notetype \<Rightarrow> conf \<Rightarrow> parse_info option
     \<Rightarrow> error + (notetype \<times> store \<times> parse_info option)" where
  "safe_update_loop [] h result cnf parse_exception = Inr (result, h, parse_exception)"
| "safe_update_loop (nts # ntss) h result cnf parse_exception =
     (case updated_model nts h result (nt_name result) cnf of
        Inr (result', h') \<Rightarrow> safe_update_loop ntss h' result' cnf parse_exception
      | Inl (NotetypeParseException e) \<Rightarrow> safe_update_loop ntss h result cnf (Some e)
      | Inl e \<Rightarrow> Inl e)"

definition safe_update_model ::
  "setting list \<Rightarrow> store \<Rightarrow> notetype \<Rightarrow> conf \<Rightarrow> error + (notetype \<times> store \<times> parse_info list)" where
  "safe_update_model ntss h model cnf =
     (case safe_update_loop ntss h model cnf None of
        Inl e \<Rightarrow> Inl e
      | Inr (result, h', parse_exception) \<Rightarrow>
          Inr (result, h', (case parse_exception of None \<Rightarrow> [] | Some e \<Rightarrow> [e])))"

section \<open>Orderings read from the back template\<close>

text \<open>
  \<^verbatim>\<open>re.findall\<close>, as the list of its matches. \<open>findall_from r n k s\<close> scans the suffix \<open>s\<close>
  of a text of length \<open>n\<close>; \<open>k\<close> characters of it still belong to the match before.
  After an empty match the scan looks for a non-empty match at the same place before it
  moves on.
\<close>

definition mk_match :: "nat \<Rightarrow> string \<Rightarrow> string \<times> caps \<Rightarrow> rematch" where
  "mk_match n s res =
     \<lparr>m_start = n - length s, m_end = n - length (fst res),
      m_caps = (\<lambda>g. map_option (\<lambda>(a, b). (n - a, n - b)) (snd res g))\<rparr>"

fun findall_from :: "re \<Rightarrow> nat \<Rightarrow> nat \<Rightarrow> string \<Rightarrow> rematch list" where
  "findall_from r n k [] =
     (if k = 0 then (case ms r [] (\<lambda>_. None) of [] \<Rightarrow> [] | res # _ \<Rightarrow> [mk_match n [] res])
      else [])"
| "findall_from r n k (x # xs) =
     (if k > 0 then findall_from r n (k - 1) xs
      else
        (case ms r (x # xs) (\<lambda>_. None) of
           [] \<Rightarrow> findall_from r n 0 xs
         | res # later \<Rightarrow>
             if length (fst res) < Suc (length xs)
             then mk_match n (x # xs) res # findall_from r n (length xs - length (fst res)) xs
             else mk_match n (x # xs) res #
                  (case filter (\<lambda>res'. length (fst res') < Suc (length xs)) later of
                     [] \<Rightarrow> findall_from r n 0 xs
                   | res' # _ \<Rightarrow>
                       mk_match n (x # xs) res' #
                       findall_from r n (length xs - length (fst res')) xs)))"

definition re_findall :: "re \<Rightarrow> string \<Rightarrow> rematch list" where
  "re_findall r text = findall_from r (length text) 0 text"

text \<open>The text of a group in a list of \<^verbatim>\<open>findall\<close> (empty for a group that took no part).\<close>

definition group_text :: "rematch \<Rightarrow> nat \<Rightarrow> string \<Rightarrow> string" where
  "group_text m g text =
     (case m_caps m g of None \<Rightarrow> [] | Some (a, b) \<Rightarrow> take (b - a) (drop a text))"

text \<open>\<^verbatim>\<open>(?:<!-- ?)?\{\{#.+?\}\}[\w\W]+?\{\{/.+?\}\}(?: ?-->)?\<close>\<close>

definition CONDITIONAL_FIELD_RE :: re where
  "CONDITIONAL_FIELD_RE =
     seqs [Opt (Seq (Lits ''<!--'') (Opt (Lits '' ''))), Lits ''{{#'', LPlus (Sym dot), Lits ''}}'',
           LPlus (Sym any_char), Lits ''{{/'', LPlus (Sym dot), Lits ''}}'',
           Opt (Seq (Opt (Lits '' '')) (Lits ''-->''))]"

text \<open>\<^verbatim>\<open>(class="hint"|id="extra"|id="dermnet"|id="ome")\<close>\<close>

definition CONFIGURABLE_FIELD_HAS_TO_CONTAIN_RE :: re where
  "CONFIGURABLE_FIELD_HAS_TO_CONTAIN_RE =
     Group 1 (Alt (Lits (''class='' @ [CHR 0x22] @ ''hint'' @ [CHR 0x22]))
             (Alt (Lits (''id='' @ [CHR 0x22] @ ''extra'' @ [CHR 0x22]))
             (Alt (Lits (''id='' @ [CHR 0x22] @ ''dermnet'' @ [CHR 0x22]))
                  (Lits (''id='' @ [CHR 0x22] @ ''ome'' @ [CHR 0x22])))))"

text \<open>\<^verbatim>\<open>\{\{#(.+?)\}\}\<close>\<close>

definition CONFIGURABLE_FIELD_NAME_RE :: re where
  "CONFIGURABLE_FIELD_NAME_RE = seqs [Lits ''{{#'', Group 1 (LPlus (Sym dot)), Lits ''}}'']"

text \<open>
  \<^verbatim>\<open>anking_notetype_templates()\<close> reads the shipped templates from disk; here it is the
  table \<open>templates\<close> from a note type name to its front, back and styling text.
\<close>

type_synonym templates = "string \<rightharpoonup> (string \<times> string \<times> string)"

fun collect :: "(error + 'a) list \<Rightarrow> error + 'a list" where
  "collect [] = Inr []"
| "collect (x # xs) =
     (case x of
        Inl e \<Rightarrow> Inl e
      | Inr v \<Rightarrow> (case collect xs of Inl e \<Rightarrow> Inl e | Inr vs \<Rightarrow> Inr (v # vs)))"

text \<open>
  \<^verbatim>\<open>configurable_fields_for_notetype\<close>. Group 1 of the name pattern is not optional, so
  \<^verbatim>\<open>.group(1)\<close> of a match is a string; \<open>py_str\<close> only unwraps it.
\<close>

definition configurable_fields_for_notetype :: "templates \<Rightarrow> string \<Rightarrow> error + string list" where
  "configurable_fields_for_notetype tpls notetype_name =
     (case tpls notetype_name of
        None \<Rightarrow> Inl KeyError
      | Some (front, back, styling) \<Rightarrow>
          collect
            (map (\<lambda>field.
                    case search_group1 CONFIGURABLE_FIELD_NAME_RE field of
                      Inl e \<Rightarrow> Inl e
                    | Inr v \<Rightarrow> Inr (py_str v))
               (filter (\<lambda>field. re_search CONFIGURABLE_FIELD_HAS_TO_CONTAIN_RE field \<noteq> None)
                  (map (\<lambda>m. group0 m back) (re_findall CONDITIONAL_FIELD_RE back)))))"

text \<open>An ordered dict as an association list: a key that is set again keeps its place.\<close>

fun odict_set :: "'k \<Rightarrow> 'v \<Rightarrow> ('k \<times> 'v) list \<Rightarrow> ('k \<times> 'v) list" where
  "odict_set k v [] = [(k, v)]"
| "odict_set k v (p # ps) = (if fst p = k then (k, v) # ps else p # odict_set k v ps)"

text \<open>\<^verbatim>\<open>var+ ButtonShortcuts *= *{([^}]*)}\<close>\<close>

definition button_shortcuts_dict_pattern :: re where
  "button_shortcuts_dict_pattern =
     seqs [Lits ''va'', Plus (Lits ''r''), Lits '' ButtonShortcuts'', Star (Lits '' ''), Lits ''='',
           Star (Lits '' ''), Lits ''{'', Group 1 (Star (Sym (none_of ''}''))), Lits ''}'']"

text \<open>\<^verbatim>\<open>"([^"]+)" *: *"([^"]*)"\<close>\<close>

definition dict_key_value_pattern :: re where
  "dict_key_value_pattern =
     seqs [Lits [CHR 0x22], Group 1 (Plus (Sym (none_of [CHR 0x22]))), Lits [CHR 0x22],
           Star (Lits '' ''), Lits '':'', Star (Lits '' ''), Lits [CHR 0x22],
           Group 2 (Star (Sym (none_of [CHR 0x22]))), Lits [CHR 0x22]]"

definition btn_name_to_shortcut_odict ::
  "templates \<Rightarrow> string \<Rightarrow> error + (string \<times> string) list" where
  "btn_name_to_shortcut_odict tpls notetype_name =
     (case tpls notetype_name of
        None \<Rightarrow> Inl KeyError
      | Some (front, back, styling) \<Rightarrow>
          (case re_search button_shortcuts_dict_pattern back of
             None \<Rightarrow> Inr []
           | Some m \<Rightarrow>
               (let inner = group_text m 1 back;
                    button_shorcut_pairs =
                      map (\<lambda>kv. (group_text kv 1 inner, group_text kv 2 inner))
                        (re_findall dict_key_value_pattern inner)
                in Inr (foldl (\<lambda>result (btn_name, shortcut). odict_set btn_name shortcut result)
                          [] button_shorcut_pairs))))"

text \<open>\<^verbatim>\<open>xs.index(x)\<close>; \<open>None\<close> stands for the \<open>ValueError\<close> of an absent element.\<close>

fun index_of :: "'a \<Rightarrow> 'a list \<Rightarrow> nat option" where
  "index_of x [] = None"
| "index_of x (y # ys) = (if y = x then Some 0 else map_option Suc (index_of x ys))"

text \<open>\<^verbatim>\<open>nts.config.get(key, False)\<close> used as a condition: the key is there and not empty.\<close>

definition tagged :: "string option \<Rightarrow> bool" where
  "tagged t = (case t of None \<Rightarrow> False | Some n \<Rightarrow> n \<noteq> [])"

text \<open>
  \<^verbatim>\<open>sorted(xs, key=f)\<close> is stable, as \<open>sort_key\<close> is; the keys are computed first, and an
  exception of the key function leaves the sort.
\<close>

definition hint_key :: "string list \<Rightarrow> setting \<Rightarrow> error + int" where
  "hint_key ordered_btn_names nts =
     (case hint_button_setting (config_of nts) of
        None \<Rightarrow> Inl KeyError
      | Some n \<Rightarrow>
          (case index_of n ordered_btn_names of
             None \<Rightarrow> Inl ValueError
           | Some i \<Rightarrow> Inr (int i)))"

definition sorted_by :: "('a \<Rightarrow> error + int) \<Rightarrow> 'a list \<Rightarrow> error + 'a list" where
  "sorted_by f xs =
     (case collect (map f xs) of
        Inl e \<Rightarrow> Inl e
      | Inr ks \<Rightarrow> Inr (map snd (sort_key fst (zip ks xs))))"

definition adjust_hint_button_nts_order ::
  "templates \<Rightarrow> setting list \<Rightarrow> string \<Rightarrow> error + setting list" where
  "adjust_hint_button_nts_order tpls ntss notetype_name =
     (let hint_button_ntss = filter (\<lambda>nts. tagged (hint_button_setting (config_of nts))) ntss in
      case btn_name_to_shortcut_odict tpls notetype_name of
        Inl e \<Rightarrow> Inl e
      | Inr odict \<Rightarrow>
          (let ordered_btn_names = map fst odict in
           case sorted_by (hint_key ordered_btn_names) hint_button_ntss of
             Inl e \<Rightarrow> Inl e
           | Inr ordered_hint_button_ntss \<Rightarrow>
               (let other_ntss = filter (\<lambda>nts. nts \<notin> set hint_button_ntss) ntss
                in Inr (ordered_hint_button_ntss @ other_ntss))))"

text \<open>
  The key of \<^verbatim>\<open>_adjust_configurable_field_nts_order\<close>: the index, or -1. The function
  reads a setting only through its \<^verbatim>\<open>config\<close> dict.
\<close>

definition field_key :: "string list \<Rightarrow> setting \<Rightarrow> error + int" where
  "field_key ordered_field_names nts =
     (case configurable_field_name (config_of nts) of
        None \<Rightarrow> Inl KeyError
      | Some n \<Rightarrow>
          (case index_of n ordered_field_names of
             None \<Rightarrow> Inr (- 1)
           | Some i \<Rightarrow> Inr (int i)))"

definition adjust_configurable_field_nts_order ::
  "templates \<Rightarrow> setting list \<Rightarrow> string \<Rightarrow> error + setting list" where
  "adjust_configurable_field_nts_order tpls ntss notetype_name =
     (let field_ntss = filter (\<lambda>nts. tagged (configurable_field_name (config_of nts))) ntss in
      case configurable_fields_for_notetype tpls notetype_name of
        Inl e \<Rightarrow> Inl e
      | Inr ordered_field_names \<Rightarrow>
          (case sorted_by (field_key ordered_field_names) field_ntss of
             Inl e \<Rightarrow> Inl e
           | Inr ordered_field_ntss \<Rightarrow>
               (let other_ntss = filter (\<lambda>nts. nts \<notin> set field_ntss) ntss
                in Inr (other_ntss @ ordered_field_ntss))))"


section \<open>Settings of a note type and the read-in\<close>

text \<open>
  \<^verbatim>\<open>ntss_for_notetype\<close>. \<open>sbn\<close> is the table \<^verbatim>\<open>settings_by_notetype\<close> (an ordered dict) and
  \<open>scs\<close> the table \<^verbatim>\<open>setting_configs\<close>; the name of a setting is stamped into its
  descriptor before the setting is built.
\<close>

definition ntss_for_notetype ::
  "(string \<times> string list) list \<Rightarrow> (string \<rightharpoonup> config) \<Rightarrow> templates \<Rightarrow> string
     \<Rightarrow> error + setting list" where
  "ntss_for_notetype sbn scs tpls notetype_name =
     (case collect
             (map (\<lambda>n. case scs n of
                          None \<Rightarrow> Inl KeyError
                        | Some setting_config \<Rightarrow> from_config (setting_config\<lparr>setting_name := n\<rparr>))
                (case map_of sbn notetype_name of None \<Rightarrow> [] | Some names \<Rightarrow> names)) of
        Inl e \<Rightarrow> Inl e
      | Inr result \<Rightarrow> adjust_hint_button_nts_order tpls result notetype_name)"

text \<open>
  The inner loop of \<^verbatim>\<open>read_in_settings_from_notetypes\<close>: a \<open>NotetypeParseException\<close> is
  added to the report, any other exception leaves the function.
\<close>

fun read_in_ntss ::
  "setting list \<Rightarrow> store \<Rightarrow> notetype \<Rightarrow> string \<Rightarrow> conf \<Rightarrow> parse_info list
     \<Rightarrow> error + (conf \<times> parse_info list)" where
  "read_in_ntss [] h model notetype_name cnf error_msg = Inr (cnf, error_msg)"
| "read_in_ntss (nts # ntss) h model notetype_name cnf error_msg =
     (case setting_value nts h model of
        Inr v \<Rightarrow> read_in_ntss ntss h model notetype_name (cnf(key nts notetype_name \<mapsto> v)) error_msg
      | Inl (NotetypeParseException e) \<Rightarrow>
          read_in_ntss ntss h model notetype_name cnf (error_msg @ [e])
      | Inl e \<Rightarrow> Inl e)"

text \<open>The outer loop; \<open>by_name\<close> is \<^verbatim>\<open>mw.col.models.by_name\<close>.\<close>

fun read_in_notetypes ::
  "(string \<times> string list) list \<Rightarrow> (string \<rightharpoonup> config) \<Rightarrow> templates \<Rightarrow> (string \<rightharpoonup> notetype)
     \<Rightarrow> string list \<Rightarrow> store \<Rightarrow> conf \<Rightarrow> parse_info list \<Rightarrow> error + (conf \<times> parse_info list)" where
  "read_in_notetypes sbn scs tpls by_name [] h cnf error_msg = Inr (cnf, error_msg)"
| "read_in_notetypes sbn scs tpls by_name (notetype_name # names) h cnf error_msg =
     (case by_name notetype_name of
        None \<Rightarrow> read_in_notetypes sbn scs tpls by_name names h cnf error_msg
      | Some model \<Rightarrow>
          (case ntss_for_notetype sbn scs tpls notetype_name of
             Inl e \<Rightarrow> Inl e
           | Inr ntss \<Rightarrow>
               (case read_in_ntss ntss h model notetype_name cnf error_msg of
                  Inl e \<Rightarrow> Inl e
                | Inr (cnf', error_msg') \<Rightarrow>
                    read_in_notetypes sbn scs tpls by_name names h cnf' error_msg')))"

text \<open>
  \<^verbatim>\<open>read_in_settings_from_notetypes\<close>: the result is the configuration read and the
  reports shown with \<^verbatim>\<open>showInfo\<close> (one report of all messages, when there is a message).
\<close>

definition read_in_settings_from_notetypes ::
  "(string \<times> string list) list \<Rightarrow> (string \<rightharpoonup> config) \<Rightarrow> templates \<Rightarrow> (string \<rightharpoonup> notetype)
     \<Rightarrow> store \<Rightarrow> conf \<Rightarrow> error + (conf \<times> parse_info list list)" where
  "read_in_settings_from_notetypes sbn scs tpls by_name h cnf =
     (case read_in_notetypes sbn scs tpls by_name (map fst sbn) h cnf [] of
        Inl e \<Rightarrow> Inl e
      | Inr (cnf', error_msg) \<Rightarrow> Inr (cnf', if error_msg = [] then [] else [error_msg]))"

section \<open>A small note type for evaluation\<close>

text \<open>
  One template dict at address 0, in the list object at address 0. The front blob has
  the \<^verbatim>\<open>autoflip\<close> and the \<^verbatim>\<open>seconds\<close> variables, the style blob a rule for bold text.
\<close>

definition store0 :: store where
  "store0 = \<lparr>lists = (\<lambda>_. [0]),
             dicts = (\<lambda>_. \<lparr>qfmt = ''var autoflip = true; var seconds = 15 ;'', afmt = ''<hr>''\<rparr>)\<rparr>"

text \<open>The same store with a timer duration that is not an integer literal.\<close>

definition store1 :: store where
  "store1 = \<lparr>lists = (\<lambda>_. [0]),
             dicts = (\<lambda>_. \<lparr>qfmt = ''var autoflip = true; var seconds = 1.5 ;'', afmt = ''<hr>''\<rparr>)\<rparr>"

definition model0 :: notetype where
  "model0 = \<lparr>nt_name = ''Basic'', tmpls = 0, css = ''b { color: red; }'', envelope = []\<rparr>"

definition conf0 :: conf where
  "conf0 = [''Basic.autoflip'' \<mapsto> VBool False, ''Basic.bold_text_color'' \<mapsto> VStr ''blue'',
            ''Basic.timer_secs'' \<mapsto> VInt 9, ''Basic.timer'' \<mapsto> VBool True]"

text \<open>
  Tables for the read-in: one note type with three settings, shipped templates without a
  \<^verbatim>\<open>ButtonShortcuts\<close> mapping, and a collection that holds \<open>model0\<close>.
\<close>

definition sbn0 :: "(string \<times> string list) list" where
  "sbn0 = [(''Basic'', [''timer'', ''timer_secs'', ''autoflip''])]"

definition scs0 :: "string \<rightharpoonup> config" where
  "scs0 = map_of [(''timer'', timer), (''timer_secs'', timer_secs), (''autoflip'', autoflip)]"

definition tpls0 :: templates where
  "tpls0 = [''Basic'' \<mapsto> ([], [], [])]"

definition by_name0 :: "string \<rightharpoonup> notetype" where
  "by_name0 = [''Basic'' \<mapsto> model0]"

text \<open>
  \<open>rewrites_applied ntss h model cnf\<close> is the model and the store after the rewrite of every
  setting of \<open>ntss\<close>, one after the other, when each of them succeeds.
\<close>

fun rewrites_applied ::
  "setting list \<Rightarrow> store \<Rightarrow> notetype \<Rightarrow> conf \<Rightarrow> error + (notetype \<times> store)" where
  "rewrites_applied [] h model cnf = Inr (model, h)"
| "rewrites_applied (nts # ntss) h model cnf =
     (case updated_model nts h model (nt_name model) cnf of
        Inl e \<Rightarrow> Inl e
      | Inr (model', h') \<Rightarrow> rewrites_applied ntss h' model' cnf)"

text \<open>
  Shipped templates whose back text has two conditional fields that qualify (\<^verbatim>\<open>Extra\<close>,
  then \<^verbatim>\<open>Pix\<close>) and a \<^verbatim>\<open>ButtonShortcuts\<close> mapping that names \<^verbatim>\<open>Pix\<close> before \<^verbatim>\<open>Extra\<close>.
\<close>

definition back1 :: string where
  "back1 = ''{{#Extra}}<div id=\"extra\">{{Extra}}</div>{{/Extra}}'' @
           ''{{#Pix}}<a class=\"hint\">{{Pix}}</a>{{/Pix}}'' @
           ''var ButtonShortcuts = {\"Pix\": \"Alt+1\", \"Extra\": \"Alt+2\"}''"

definition tpls1 :: templates where
  "tpls1 = [''Basic'' \<mapsto> ([], back1, [])]"

text \<open>A shortcut setting of a hint button, as the older table tags it.\<close>

definition hint_shortcut :: "string \<Rightarrow> config" where
  "hint_shortcut btn_name =
     (base_config (''btn_shortcut_'' @ btn_name) ''shortcut'' ''back''
        (seqs [Lits ''va'', Plus (Lits ''r''), Lits '' ButtonShortcuts'', Star (Lits '' ''),
               Lits ''='', Star (Lits '' ''), Lits ''{'', LStar (Sym (none_of ''}'')),
               Lits ([CHR 0x22] @ btn_name @ [CHR 0x22]), Star (Lits '' ''), Lits '':'',
               Star (Lits '' ''), Lits [CHR 0x22],
               Group 1 (LStar (Alt (Seq (Lits [CHR 0x5C]) (Sym dot))
                                   (Sym (none_of [CHR 0x22, CHR 0x5C])))),
               Lits [CHR 0x22]]))
     \<lparr>hint_button_setting := Some btn_name\<rparr>"

section \<open>Properties of the string operations\<close>


lemma find_sub_Some_iff:
  "find_sub sub s = Some i \<longleftrightarrow>
     i \<le> length s \<and> prefix sub (drop i s) \<and> (\<forall>j<i. \<not> prefix sub (drop j s))"
proof (induction s arbitrary: i)
  case Nil
  then show ?case by auto
next
  case (Cons c cs)
  show ?case
  proof (cases "prefix sub (c # cs)")
    case True
    then show ?thesis by (cases i) auto
  next
    case False
    show ?thesis
    proof (cases i)
      case 0
      with False show ?thesis by simp
    next
      case (Suc k)
      have "(\<forall>j<Suc k. \<not> prefix sub (drop j (c # cs))) \<longleftrightarrow> (\<forall>j<k. \<not> prefix sub (drop j cs))"
        using False by (auto simp: less_Suc_eq_0_disj)
      with False Suc Cons.IH[of k] show ?thesis by auto
    qed
  qed
qed

lemma find_sub_None_iff: "find_sub sub s = None \<longleftrightarrow> \<not> sublist sub s"
  by (induction s) (auto simp: sublist_Cons_right)

lemma contains_iff_sublist: "contains sub s \<longleftrightarrow> sublist sub s"
  by (simp add: contains_def find_sub_None_iff)

section \<open>Properties of the matcher\<close>

text \<open>
  What a pattern consumes does not depend on what follows: a match that leaves \<open>rest\<close>
  has consumed a prefix \<open>w\<close> that the pattern accepts in front of any other text.
\<close>

lemma ms_consumes:
  "(rest, c') \<in> set (ms r s c) \<Longrightarrow> \<exists>w. s = w @ rest \<and> accepts r w"
proof (induction r s c arbitrary: rest c' rule: ms.induct)
  case (1 p s c)
  then obtain x where x: "s = x # rest" "p x" by (auto split: list.splits if_splits)
  then have "accepts (Sym p) [x]" by (simp add: accepts_def)
  with x show ?case by (intro exI[of _ "[x]"]) simp
next
  case (2 w s c)
  then have "prefix w s" "rest = drop (length w) s" by (auto split: if_splits)
  then have "s = w @ rest" by (auto simp: prefix_def)
  moreover have "accepts (Lits w) w" by (simp add: accepts_def)
  ultimately show ?case by blast
next
  case (3 a b s c)
  from "3.prems" obtain s1 c1 where a: "(s1, c1) \<in> set (ms a s c)"
    and b: "(rest, c') \<in> set (ms b s1 c1)" by auto
  from "3.IH"(1)[OF a] obtain w1 where w1: "s = w1 @ s1" "accepts a w1" by blast
  from "3.IH"(2)[OF a refl b] obtain w2 where w2: "s1 = w2 @ rest" "accepts b w2" by blast
  have "accepts (Seq a b) (w1 @ w2)"
    unfolding accepts_def
  proof (intro allI)
    fix t c0
    from w1(2) obtain ca where ca: "(w2 @ t, ca) \<in> set (ms a (w1 @ (w2 @ t)) c0)"
      unfolding accepts_def by blast
    from w2(2) obtain cb where cb: "(t, cb) \<in> set (ms b (w2 @ t) ca)"
      unfolding accepts_def by blast
    from ca cb show "\<exists>c''. (t, c'') \<in> set (ms (Seq a b) ((w1 @ w2) @ t) c0)"
      by force
  qed
  with w1 w2 show ?case by auto
next
  case (4 a b s c)
  from "4.prems" consider "(rest, c') \<in> set (ms a s c)" | "(rest, c') \<in> set (ms b s c)" by auto
  then show ?case
  proof cases
    case 1
    from "4.IH"(1)[OF 1] obtain w where w: "s = w @ rest" "accepts a w" by blast
    have "accepts (Alt a b) w"
      unfolding accepts_def
    proof (intro allI)
      fix t c0
      from w(2) obtain ca where "(t, ca) \<in> set (ms a (w @ t) c0)" unfolding accepts_def by blast
      then show "\<exists>c''. (t, c'') \<in> set (ms (Alt a b) (w @ t) c0)" by auto
    qed
    with w show ?thesis by blast
  next
    case 2
    from "4.IH"(2)[OF 2] obtain w where w: "s = w @ rest" "accepts b w" by blast
    have "accepts (Alt a b) w"
      unfolding accepts_def
    proof (intro allI)
      fix t c0
      from w(2) obtain ca where "(t, ca) \<in> set (ms b (w @ t) c0)" unfolding accepts_def by blast
      then show "\<exists>c''. (t, c'') \<in> set (ms (Alt a b) (w @ t) c0)" by auto
    qed
    with w show ?thesis by blast
  qed
next
  case (5 a s c)
  have nil: "accepts (Star a) []" unfolding accepts_def by (subst ms.simps(5)) auto
  from "5.prems" consider "rest = s" |
    s1 c1 where "(s1, c1) \<in> set (ms a s c)" "length s1 < length s" "(rest, c') \<in> set (ms (Star a) s1 c1)"
    by (subst (asm) ms.simps(5)) (auto split: if_splits)
  then show ?case
  proof cases
    case 1
    with nil show ?thesis by auto
  next
    case 2
    from "5.IH"(1)[OF 2(1)] obtain w1 where w1: "s = w1 @ s1" "accepts a w1" by blast
    from "5.IH"(2)[OF 2(1) refl 2(2) 2(3)] obtain w2 where w2: "s1 = w2 @ rest" "accepts (Star a) w2" by blast
    from w1(1) 2(2) have ne: "w1 \<noteq> []" by auto
    have "accepts (Star a) (w1 @ w2)"
      unfolding accepts_def
    proof (intro allI)
      fix t c0
      from w1(2) obtain ca where ca: "(w2 @ t, ca) \<in> set (ms a (w1 @ (w2 @ t)) c0)"
        unfolding accepts_def by blast
      from w2(2) obtain cb where cb: "(t, cb) \<in> set (ms (Star a) (w2 @ t) ca)"
        unfolding accepts_def by blast
      from ne have "length (w2 @ t) < length (w1 @ w2 @ t)" by (cases w1) auto
      with ca cb show "\<exists>c''. (t, c'') \<in> set (ms (Star a) ((w1 @ w2) @ t) c0)"
        by (subst ms.simps(5)) force
    qed
    with w1 w2 show ?thesis by auto
  qed
next
  case (6 a s c)
  have nil: "accepts (LStar a) []" unfolding accepts_def by (subst ms.simps(6)) auto
  from "6.prems" consider "rest = s" |
    s1 c1 where "(s1, c1) \<in> set (ms a s c)" "length s1 < length s" "(rest, c') \<in> set (ms (LStar a) s1 c1)"
    by (subst (asm) ms.simps(6)) (auto split: if_splits)
  then show ?case
  proof cases
    case 1
    with nil show ?thesis by auto
  next
    case 2
    from "6.IH"(1)[OF 2(1)] obtain w1 where w1: "s = w1 @ s1" "accepts a w1" by blast
    from "6.IH"(2)[OF 2(1) refl 2(2) 2(3)] obtain w2 where w2: "s1 = w2 @ rest" "accepts (LStar a) w2" by blast
    from w1(1) 2(2) have ne: "w1 \<noteq> []" by auto
    have "accepts (LStar a) (w1 @ w2)"
      unfolding accepts_def
    proof (intro allI)
      fix t c0
      from w1(2) obtain ca where ca: "(w2 @ t, ca) \<in> set (ms a (w1 @ (w2 @ t)) c0)"
        unfolding accepts_def by blast
      from w2(2) obtain cb where cb: "(t, cb) \<in> set (ms (LStar a) (w2 @ t) ca)"
        unfolding accepts_def by blast
      from ne have "length (w2 @ t) < length (w1 @ w2 @ t)" by (cases w1) auto
      with ca cb show "\<exists>c''. (t, c'') \<in> set (ms (LStar a) ((w1 @ w2) @ t) c0)"
        by (subst ms.simps(6)) force
    qed
    with w1 w2 show ?thesis by auto
  qed
next
  case (7 n a s c)
  from "7.prems" obtain c1 where a: "(rest, c1) \<in> set (ms a s c)" by auto
  from "7.IH"[OF a] obtain w where w: "s = w @ rest" "accepts a w" by blast
  have "accepts (Group n a) w"
    unfolding accepts_def
  proof (intro allI)
    fix t c0
    from w(2) obtain ca where "(t, ca) \<in> set (ms a (w @ t) c0)" unfolding accepts_def by blast
    then show "\<exists>c''. (t, c'') \<in> set (ms (Group n a) (w @ t) c0)" by force
  qed
  with w show ?case by blast
qed

section \<open>The closed dispatch of \<open>from_config\<close>\<close>

text \<open>
  Claim C10. \<open>from_config\<close> builds a setting exactly for the eight type tags checkbox,
  re_checkbox, text, number, shortcut, dropdown, color and font_family, and raises its
  exception for every other tag. The descriptor \<open>field_order\<close> (tag order) and every
  descriptor made by \<open>disable_field_setting_config\<close> (tag wrap_checkbox) are in the table
  and have no case: building a setting from them raises.
\<close>

theorem from_config_closed_dispatch:
  "((\<exists>nts. from_config cfg = Inr nts) \<longleftrightarrow>
      ctype cfg \<in> set [''checkbox'', ''re_checkbox'', ''text'', ''number'', ''shortcut'',
                        ''dropdown'', ''color'', ''font_family''])
   \<and> (from_config cfg = Inl (Exception (''unkown NoteTypeSetting type: '' @ ctype cfg)) \<longleftrightarrow>
      ctype cfg \<notin> set [''checkbox'', ''re_checkbox'', ''text'', ''number'', ''shortcut'',
                        ''dropdown'', ''color'', ''font_family''])
   \<and> from_config field_order = Inl (Exception ''unkown NoteTypeSetting type: order'')
   \<and> from_config (disable_field_setting_config field_name default_value) =
       Inl (Exception ''unkown NoteTypeSetting type: wrap_checkbox'')"
  by (simp add: from_config_def field_order_def disable_field_setting_config_def
        base_config_def)

section \<open>The codec of ReCheckboxSetting\<close>

text \<open>
  Claim C7. For a re_checkbox descriptor with pairs of an off-literal and an on-literal,
  call the section fully on when every on-literal occurs in it and fully off when every
  off-literal does. Decoding yields true exactly when the section is fully on and not
  fully off, false exactly when it is fully off and not fully on, and raises the parse
  exception exactly when it is neither or both; so a value that is returned is true iff
  every on-literal is present. With the pair (none, block) the section
  \<^verbatim>\<open>.timer {display: none;}\<close> decodes to false, and encoding true gives
  \<^verbatim>\<open>.timer {display: block;}\<close>.
\<close>

theorem re_checkbox_codec:
  assumes "replacement_pairs cfg = Some pairs"
  shows
    "(ReCheckbox_extract_setting_value cfg section = Inr (VBool True) \<longleftrightarrow>
        list_all (\<lambda>(x, y). sublist y section) pairs \<and>
        \<not> list_all (\<lambda>(x, y). sublist x section) pairs)
     \<and> (ReCheckbox_extract_setting_value cfg section = Inr (VBool False) \<longleftrightarrow>
        list_all (\<lambda>(x, y). sublist x section) pairs \<and>
        \<not> list_all (\<lambda>(x, y). sublist y section) pairs)
     \<and> (ReCheckbox_extract_setting_value cfg section =
          Inl (NotetypeParseException (ErrorInvolving pairs section)) \<longleftrightarrow>
        (list_all (\<lambda>(x, y). sublist y section) pairs \<longleftrightarrow>
         list_all (\<lambda>(x, y). sublist x section) pairs))
     \<and> (\<forall>v. ReCheckbox_extract_setting_value cfg section = Inr v \<longrightarrow>
          v = VBool (list_all (\<lambda>(x, y). sublist y section) pairs))
     \<and> ReCheckbox_extract_setting_value timer ''.timer {display: none;}'' = Inr (VBool False)
     \<and> ReCheckbox_set_setting_value timer ''.timer {display: none;}'' (VBool True) =
         Inr ''.timer {display: block;}''"
proof -
  have ex1: "ReCheckbox_extract_setting_value timer ''.timer {display: none;}'' = Inr (VBool False)"
    by (simp add: ReCheckbox_extract_setting_value_def timer_def base_config_def contains_def)
  have ex2: "ReCheckbox_set_setting_value timer ''.timer {display: none;}'' (VBool True) =
         Inr ''.timer {display: block;}''"
    by (simp add: ReCheckbox_set_setting_value_def timer_def base_config_def replace_all_def
          replace_scan.simps)
  show ?thesis
    using assms ex1 ex2
    by (auto simp: ReCheckbox_extract_setting_value_def Let_def contains_iff_sublist)
qed

theorem re_checkbox_codec_witness:
  "replacement_pairs timer = Some [(''none'', ''block'')]
   \<and> sublist ''none'' ''.timer {display: none;}''
   \<and> \<not> sublist ''block'' ''.timer {display: none;}''"
proof -
  have h: "replacement_pairs timer = Some [(''none'', ''block'')]"
    by (simp add: timer_def base_config_def)
  from re_checkbox_codec [OF h, of "''.timer {display: none;}''"] h show ?thesis
    by auto
qed

section \<open>The inherit option of ColorSetting\<close>

text \<open>
  Claim C3. With the inherit option, encoding a value other than transparent should put
  the token inherit in place of the stored colour. \<open>Color_set_setting_value\<close> takes the
  token to replace from its own decoder, which already reports inherit for every stored
  colour but transparent, so it looks for the text inherit in the section: a section
  that stores red is returned as it is, and decoding it still reports inherit. Only a
  stored transparent is replaced.
\<close>

theorem color_inherit_encode_keeps_stored_token:
  "Color_set_setting_value bold_text_color ''b {color: red;'' (VStr ''blue'') =
     Inr ''b {color: red;''
   \<and> Color_set_setting_value bold_text_color ''b {color: red;'' (VStr ''inherit'') =
     Inr ''b {color: red;''
   \<and> Color_set_setting_value bold_text_color ''b {color: red;'' (VStr ''transparent'') =
     Inr ''b {color: red;''
   \<and> Color_extract_setting_value bold_text_color ''b {color: red;'' = Inr (VStr ''inherit'')
   \<and> Color_set_setting_value bold_text_color ''b {color: transparent;'' (VStr ''blue'') =
     Inr ''b {color: inherit;''"
  by code_simp

lemma search_from_Some:
  assumes "search_from r n s = Some m" "length s \<le> n"
  shows "\<exists>k rest c tl. k \<le> length s \<and> ms r (drop k s) (\<lambda>_. None) = (rest, c) # tl
           \<and> m_start m = n - length s + k \<and> m_end m = n - length rest
           \<and> m_caps m = (\<lambda>g. map_option (\<lambda>(a, b). (n - a, n - b)) (c g))
           \<and> (\<forall>j<k. ms r (drop j s) (\<lambda>_. None) = [])"
  using assms
proof (induction s)
  case Nil
  then show ?case
    by (auto split: list.splits)
next
  case (Cons x xs)
  show ?case
  proof (cases "ms r (x # xs) (\<lambda>_. None)")
    case Nil
    with Cons.prems have "search_from r n xs = Some m" "length xs \<le> n" by auto
    from Cons.IH[OF this] obtain k rest c tl where k: "k \<le> length xs"
      "ms r (drop k xs) (\<lambda>_. None) = (rest, c) # tl"
      "m_start m = n - length xs + k" "m_end m = n - length rest"
      "m_caps m = (\<lambda>g. map_option (\<lambda>(a, b). (n - a, n - b)) (c g))"
      "\<forall>j<k. ms r (drop j xs) (\<lambda>_. None) = []" by blast
    have "\<forall>j<Suc k. ms r (drop j (x # xs)) (\<lambda>_. None) = []"
      using Nil k(6) by (auto simp: less_Suc_eq_0_disj)
    moreover have "m_start m = n - length (x # xs) + Suc k" using k(3) Cons.prems(2) by simp
    ultimately show ?thesis
      using k by (intro exI[of _ "Suc k"] exI[of _ rest] exI[of _ c] exI[of _ tl]) simp
  next
    case (Cons res tl)
    obtain rest c where res: "res = (rest, c)" by (cases res)
    with Cons Cons.prems show ?thesis
      by (intro exI[of _ 0] exI[of _ rest] exI[of _ c] exI[of _ tl]) auto
  qed
qed

lemma re_search_Some:
  assumes "re_search r text = Some m"
  shows "\<exists>w rest c tl. drop (m_start m) text = w @ rest \<and> accepts r w
           \<and> m_start m \<le> length text \<and> m_end m = m_start m + length w
           \<and> ms r (drop (m_start m) text) (\<lambda>_. None) = (rest, c) # tl
           \<and> m_caps m = (\<lambda>g. map_option (\<lambda>(a, b). (length text - a, length text - b)) (c g))
           \<and> (\<forall>j<m_start m. ms r (drop j text) (\<lambda>_. None) = [])"
proof -
  from search_from_Some[OF assms[unfolded re_search_def] le_refl]
  obtain k rest c tl where k: "k \<le> length text"
      "ms r (drop k text) (\<lambda>_. None) = (rest, c) # tl"
      "m_start m = k" "m_end m = length text - length rest"
      "m_caps m = (\<lambda>g. map_option (\<lambda>(a, b). (length text - a, length text - b)) (c g))"
      "\<forall>j<k. ms r (drop j text) (\<lambda>_. None) = []" by auto
  from k(2) have "(rest, c) \<in> set (ms r (drop k text) (\<lambda>_. None))" by simp
  from ms_consumes[OF this] obtain w where w: "drop k text = w @ rest" "accepts r w" by blast
  from w(1) have "length text - k = length w + length rest"
    by (metis length_append length_drop)
  with k(1) k(4) have "m_end m = k + length w" by simp
  with k w show ?thesis by auto
qed

lemma located_section:
  assumes "re_search r text = Some m"
  shows "find_sub (group0 m text) text = Some (m_start m)"
    and "m_start m \<le> m_end m" and "m_end m \<le> length text"
    and "length (group0 m text) = m_end m - m_start m"
    and "accepts r (group0 m text)"
proof -
  from re_search_Some[OF assms] obtain w rest where w:
    "drop (m_start m) text = w @ rest" "accepts r w" "m_start m \<le> length text"
    "m_end m = m_start m + length w"
    "\<forall>j<m_start m. ms r (drop j text) (\<lambda>_. None) = []" by blast
  have g: "group0 m text = w" using w(1,4) by (simp add: group0_def)
  show "m_start m \<le> m_end m" using w(4) by simp
  have "length text - m_start m = length w + length rest"
    using w(1) by (metis length_append length_drop)
  then show "m_end m \<le> length text" using w(3,4) by simp
  show "length (group0 m text) = m_end m - m_start m" using g w(4) by simp
  show "accepts r (group0 m text)" using g w(2) by simp
  have "\<not> prefix w (drop j text)" if "j < m_start m" for j
  proof
    assume "prefix w (drop j text)"
    then obtain t where "drop j text = w @ t" by (auto simp: prefix_def)
    with w(2) obtain c'' where "(t, c'') \<in> set (ms r (drop j text) (\<lambda>_. None))"
      unfolding accepts_def by metis
    with w(5) that show False by auto
  qed
  then show "find_sub (group0 m text) text = Some (m_start m)"
    using w(1,3) g by (simp add: find_sub_Some_iff)
qed

lemma replace1_located:
  assumes "re_search r text = Some m"
  shows "replace1 text (group0 m text) new = take (m_start m) text @ new @ drop (m_end m) text"
  using located_section[OF assms] by (simp add: replace1_def)

section \<open>Locality of \<open>updated_model\<close>\<close>

text \<open>
  Claim C2. When \<open>updated_model\<close> returns, the locator has matched the text of the blob
  that the descriptor's file names at a span from \<open>m_start\<close> to \<open>m_end\<close>, and the
  returned model carries, in that blob, the same text with the characters of this span
  replaced by the encoded section: the characters before and after the span are as they
  were. The other two blobs, the name, the template reference and every other entry of
  the returned model are those of the input, the list objects of the store are untouched
  and so is every template dict other than the model's own.
\<close>

theorem updated_model_locality:
  assumes "updated_model nts h model notetype_name cnf = Inr (model', h')"
  shows "\<exists>text m v processed.
      relevant_template_text nts h model = Inr text
    \<and> re_search (regex (config_of nts)) text = Some m
    \<and> m_start m \<le> m_end m \<and> m_end m \<le> length text
    \<and> cnf (key nts notetype_name) = Some v
    \<and> set_setting_value nts (take (m_end m - m_start m) (drop (m_start m) text)) v = Inr processed
    \<and> front_blob h' model' =
        (if cfile (config_of nts) = ''front''
         then take (m_start m) text @ processed @ drop (m_end m) text else front_blob h model)
    \<and> back_blob h' model' =
        (if cfile (config_of nts) \<noteq> ''front'' \<and> cfile (config_of nts) = ''back''
         then take (m_start m) text @ processed @ drop (m_end m) text else back_blob h model)
    \<and> style_blob h' model' =
        (if cfile (config_of nts) \<noteq> ''front'' \<and> cfile (config_of nts) \<noteq> ''back''
         then take (m_start m) text @ processed @ drop (m_end m) text else style_blob h model)
    \<and> text =
        (if cfile (config_of nts) = ''front'' then front_blob h model
         else if cfile (config_of nts) = ''back'' then back_blob h model
         else style_blob h model)
    \<and> nt_name model' = nt_name model \<and> tmpls model' = tmpls model
    \<and> envelope model' = envelope model
    \<and> lists h' = lists h
    \<and> (\<forall>a. a \<noteq> hd (lists h (tmpls model)) \<longrightarrow> dicts h' a = dicts h a)"
proof -
  from assms obtain text0 where tx: "relevant_template_text nts h model = Inr text0"
    by (auto simp: updated_model_def relevant_template_section_def split: sum.splits)
  from assms tx obtain m where m: "re_search (regex (config_of nts)) text0 = Some m"
    by (auto simp: updated_model_def relevant_template_section_def split: sum.splits option.splits)
  from tx m have sec: "relevant_template_section nts h model = Inr (group0 m text0)"
    by (simp add: relevant_template_section_def)
  from assms sec obtain v where v: "cnf (key nts notetype_name) = Some v"
    by (auto simp: updated_model_def split: option.splits)
  from assms sec v obtain processed where
    p: "set_setting_value nts (group0 m text0) v = Inr processed"
    by (auto simp: updated_model_def split: sum.splits)
  note loc = located_section[OF m]
  have rep: "replace1 text0 (group0 m text0) processed =
      take (m_start m) text0 @ processed @ drop (m_end m) text0"
    by (rule replace1_located[OF m])
  from tx have len: "length (lists h (tmpls model)) = 1"
    by (auto simp: relevant_template_text_def Let_def split: if_splits)
  have tgt: "text0 =
        (if cfile (config_of nts) = ''front'' then front_blob h model
         else if cfile (config_of nts) = ''back'' then back_blob h model
         else style_blob h model)"
    using tx len
    by (auto simp: relevant_template_text_def Let_def front_blob_def back_blob_def style_blob_def
          split: if_splits)
  have res: "(model', h') =
      (if cfile (config_of nts) = ''front''
       then (model, h\<lparr>dicts := (dicts h)(hd (lists h (tmpls model)) :=
                (dicts h (hd (lists h (tmpls model))))
                  \<lparr>qfmt := take (m_start m) text0 @ processed @ drop (m_end m) text0\<rparr>)\<rparr>)
       else if cfile (config_of nts) = ''back''
       then (model, h\<lparr>dicts := (dicts h)(hd (lists h (tmpls model)) :=
                (dicts h (hd (lists h (tmpls model))))
                  \<lparr>afmt := take (m_start m) text0 @ processed @ drop (m_end m) text0\<rparr>)\<rparr>)
       else (model\<lparr>css := take (m_start m) text0 @ processed @ drop (m_end m) text0\<rparr>, h))"
    using assms sec v p tx len rep
    by (auto simp: updated_model_def Let_def split: if_splits)
  have blobs: "front_blob h' model' =
        (if cfile (config_of nts) = ''front''
         then take (m_start m) text0 @ processed @ drop (m_end m) text0 else front_blob h model)"
    "back_blob h' model' =
        (if cfile (config_of nts) \<noteq> ''front'' \<and> cfile (config_of nts) = ''back''
         then take (m_start m) text0 @ processed @ drop (m_end m) text0 else back_blob h model)"
    "style_blob h' model' =
        (if cfile (config_of nts) \<noteq> ''front'' \<and> cfile (config_of nts) \<noteq> ''back''
         then take (m_start m) text0 @ processed @ drop (m_end m) text0 else style_blob h model)"
    using res by (auto simp: front_blob_def back_blob_def style_blob_def split: if_splits)
  have frame: "nt_name model' = nt_name model" "tmpls model' = tmpls model"
    "envelope model' = envelope model" "lists h' = lists h"
    "\<forall>a. a \<noteq> hd (lists h (tmpls model)) \<longrightarrow> dicts h' a = dicts h a"
    using res by (auto split: if_splits)
  from p have p': "set_setting_value nts (take (m_end m - m_start m) (drop (m_start m) text0)) v
      = Inr processed" by (simp add: group0_def)
  show ?thesis
    using tx m loc(2,3) v p' blobs tgt frame by blast
qed

lemma autoflip_section0:
  "relevant_template_section (CheckboxSetting autoflip) store0 model0 = Inr ''var autoflip = true''"
  by code_simp

lemma autoflip_text0:
  "relevant_template_text (CheckboxSetting autoflip) store0 model0 =
     Inr ''var autoflip = true; var seconds = 15 ;''"
  by code_simp

lemma autoflip_set0:
  "set_setting_value (CheckboxSetting autoflip) ''var autoflip = true'' (VBool False) =
     Inr ''var autoflip = false''"
  by code_simp

lemma autoflip_replace0:
  "replace1 ''var autoflip = true; var seconds = 15 ;'' ''var autoflip = true''
     ''var autoflip = false'' = ''var autoflip = false; var seconds = 15 ;''"
  by code_simp

lemma autoflip_updated0:
  "updated_model (CheckboxSetting autoflip) store0 model0 ''Basic'' conf0 =
     Inr (model0, store0\<lparr>dicts := (dicts store0)(0 := (dicts store0 0)
            \<lparr>qfmt := ''var autoflip = false; var seconds = 15 ;''\<rparr>)\<rparr>)"
proof -
  have k: "conf0 (key (CheckboxSetting autoflip) ''Basic'') = Some (VBool False)"
    by (simp add: conf0_def key_def autoflip_def base_config_def)
  have f: "cfile autoflip = ''front''"
    by (simp add: autoflip_def base_config_def)
  have l: "lists store0 (tmpls model0) = [0]" by (simp add: store0_def)
  show ?thesis
    unfolding updated_model_def
    by (simp add: autoflip_section0 autoflip_text0 autoflip_set0 autoflip_replace0 k f l Let_def
          del: set_setting_value.simps)
qed

theorem updated_model_locality_witness:
  "\<exists>model' h'.
     updated_model (CheckboxSetting autoflip) store0 model0 ''Basic'' conf0 = Inr (model', h')
     \<and> front_blob h' model' = ''var autoflip = false; var seconds = 15 ;''
     \<and> back_blob h' model' = ''<hr>''
     \<and> style_blob h' model' = ''b { color: red; }''
     \<and> nt_name model' = ''Basic''"
proof -
  note u = autoflip_updated0
  have f: "cfile (config_of (CheckboxSetting autoflip)) = ''front''"
    by (simp add: autoflip_def base_config_def)
  have b: "back_blob store0 model0 = ''<hr>''" "style_blob store0 model0 = ''b { color: red; }''"
    by (simp_all add: back_blob_def style_blob_def store0_def model0_def)
  from updated_model_locality [OF u] f
  have "back_blob (store0\<lparr>dicts := (dicts store0)(0 := (dicts store0 0)
            \<lparr>qfmt := ''var autoflip = false; var seconds = 15 ;''\<rparr>)\<rparr>) model0 = back_blob store0 model0
    \<and> style_blob (store0\<lparr>dicts := (dicts store0)(0 := (dicts store0 0)
            \<lparr>qfmt := ''var autoflip = false; var seconds = 15 ;''\<rparr>)\<rparr>) model0 = style_blob store0 model0
    \<and> nt_name model0 = nt_name model0"
    by (elim exE conjE) simp
  moreover have "front_blob (store0\<lparr>dicts := (dicts store0)(0 := (dicts store0 0)
            \<lparr>qfmt := ''var autoflip = false; var seconds = 15 ;''\<rparr>)\<rparr>) model0
      = ''var autoflip = false; var seconds = 15 ;''"
    by (simp add: front_blob_def store0_def model0_def)
  moreover have "nt_name model0 = ''Basic''" by (simp add: model0_def)
  ultimately show ?thesis
    using u b by (intro exI[of _ model0] exI[of _ "store0\<lparr>dicts := (dicts store0)(0 := (dicts store0 0)
            \<lparr>qfmt := ''var autoflip = false; var seconds = 15 ;''\<rparr>)\<rparr>"]) simp
qed

section \<open>The shallow copy of \<open>updated_model\<close>\<close>

text \<open>
  Claim C6. \<open>updated_model\<close> should leave the model it is given as it was. Its copy is
  shallow: the copy refers to the template dict of the given model, and the assignment
  to \<^verbatim>\<open>template["qfmt"]\<close> writes that dict. For the setting \<open>autoflip\<close> (file front) the
  front blob of the given model reads \<^verbatim>\<open>var autoflip = true\<close> before the call and
  \<^verbatim>\<open>var autoflip = false\<close> after it; the returned model is the given one. Only a rewrite
  of the style blob leaves the given model as it was.
\<close>

theorem updated_model_writes_given_model:
  "updated_model (CheckboxSetting autoflip) store0 model0 ''Basic'' conf0 =
     Inr (model0, store0\<lparr>dicts := (dicts store0)(0 := (dicts store0 0)
            \<lparr>qfmt := ''var autoflip = false; var seconds = 15 ;''\<rparr>)\<rparr>)
   \<and> front_blob store0 model0 = ''var autoflip = true; var seconds = 15 ;''
   \<and> front_blob (store0\<lparr>dicts := (dicts store0)(0 := (dicts store0 0)
            \<lparr>qfmt := ''var autoflip = false; var seconds = 15 ;''\<rparr>)\<rparr>) model0 =
       ''var autoflip = false; var seconds = 15 ;''"
  using autoflip_updated0 by (simp add: front_blob_def store0_def model0_def)

lemma updated_model_nt_name:
  "updated_model nts h model n cnf = Inr (model', h') \<Longrightarrow> nt_name model' = nt_name model"
  by (auto simp: updated_model_def Let_def split: sum.splits option.splits if_splits)

lemma safe_update_loop_append:
  "rewrites_applied xs h model cnf = Inr (m1, h1) \<Longrightarrow>
   safe_update_loop (xs @ zs) h model cnf pe = safe_update_loop zs h1 m1 cnf pe"
proof (induction xs arbitrary: h model)
  case Nil
  then show ?case by simp
next
  case (Cons x xs)
  then show ?case by (auto split: sum.splits)
qed

lemma safe_update_loop_all:
  "rewrites_applied xs h model cnf = Inr (m1, h1) \<Longrightarrow>
   safe_update_loop xs h model cnf pe = Inr (m1, h1, pe)"
  using safe_update_loop_append[of xs h model cnf m1 h1 "[]" pe] by simp

lemma rewrites_applied_nt_name:
  "rewrites_applied xs h model cnf = Inr (m1, h1) \<Longrightarrow> nt_name m1 = nt_name model"
proof (induction xs arbitrary: h model)
  case Nil
  then show ?case by simp
next
  case (Cons x xs)
  then show ?case by (auto split: sum.splits dest: updated_model_nt_name)
qed

lemma locator_fails:
  assumes "relevant_template_text f h m = Inr t" "re_search (regex (config_of f)) t = None"
  shows "updated_model f h m n cnf =
     Inl (NotetypeParseException (CouldNotFind (name (config_of f)) (cfile (config_of f)) (nt_name m)))"
  using assms by (simp add: updated_model_def relevant_template_section_def)

section \<open>Isolation of one failing locator in the batch update\<close>

text \<open>
  Claim C4. Let the settings be \<open>xs\<close>, then \<open>f\<close>, then \<open>ys\<close>, where the locator of \<open>f\<close>
  finds no match in the model reached after \<open>xs\<close>, and the rewrites of \<open>xs\<close> and then of
  \<open>ys\<close> all succeed. Then \<open>safe_update_model\<close> returns (no exception leaves it), the
  model and the store it returns are those with the rewrites of \<open>xs\<close> and \<open>ys\<close> applied,
  and exactly one failure is shown, the one of \<open>f\<close>.
\<close>

theorem safe_update_model_isolates_one_failure:
  assumes "rewrites_applied xs h model cnf = Inr (m1, h1)"
    and "relevant_template_text f h1 m1 = Inr t"
    and "re_search (regex (config_of f)) t = None"
    and "rewrites_applied ys h1 m1 cnf = Inr (m2, h2)"
  shows "safe_update_model (xs @ f # ys) h model cnf =
           Inr (m2, h2, [CouldNotFind (name (config_of f)) (cfile (config_of f)) (nt_name model)])"
proof -
  have n1: "nt_name m1 = nt_name model" by (rule rewrites_applied_nt_name[OF assms(1)])
  have fail: "updated_model f h1 m1 n cnf =
      Inl (NotetypeParseException
             (CouldNotFind (name (config_of f)) (cfile (config_of f)) (nt_name model)))" for n
    using locator_fails[OF assms(2,3)] n1 by simp
  have "safe_update_loop (xs @ f # ys) h model cnf None =
      safe_update_loop (f # ys) h1 m1 cnf None"
    by (rule safe_update_loop_append[OF assms(1)])
  also have "\<dots> = safe_update_loop ys h1 m1 cnf
      (Some (CouldNotFind (name (config_of f)) (cfile (config_of f)) (nt_name model)))"
    by (simp add: fail)
  also have "\<dots> = Inr (m2, h2,
      Some (CouldNotFind (name (config_of f)) (cfile (config_of f)) (nt_name model)))"
    by (rule safe_update_loop_all[OF assms(4)])
  finally show ?thesis
    by (simp add: safe_update_model_def)
qed

lemma timer_secs_updated0:
  "updated_model (NumberEditSetting timer_secs)
     (store0\<lparr>dicts := (dicts store0)(0 := (dicts store0 0)
        \<lparr>qfmt := ''var autoflip = false; var seconds = 15 ;''\<rparr>)\<rparr>) model0 ''Basic'' conf0 =
   Inr (model0, store0\<lparr>dicts := (dicts store0)(0 := (dicts store0 0)
        \<lparr>qfmt := ''var autoflip = false; var seconds = 9 ;''\<rparr>)\<rparr>)"
proof -
  let ?h = "store0\<lparr>dicts := (dicts store0)(0 := (dicts store0 0)
        \<lparr>qfmt := ''var autoflip = false; var seconds = 15 ;''\<rparr>)\<rparr>"
  have s: "relevant_template_section (NumberEditSetting timer_secs) ?h model0 =
      Inr ''var seconds = 15''" by code_simp
  have t: "relevant_template_text (NumberEditSetting timer_secs) ?h model0 =
      Inr ''var autoflip = false; var seconds = 15 ;''" by code_simp
  have e: "set_setting_value (NumberEditSetting timer_secs) ''var seconds = 15'' (VInt 9) =
      Inr ''var seconds = 9''" by code_simp
  have r: "replace1 ''var autoflip = false; var seconds = 15 ;'' ''var seconds = 15''
      ''var seconds = 9'' = ''var autoflip = false; var seconds = 9 ;''" by code_simp
  have k: "conf0 (key (NumberEditSetting timer_secs) ''Basic'') = Some (VInt 9)"
    by (simp add: conf0_def key_def timer_secs_def base_config_def)
  have f: "cfile timer_secs = ''front''" by (simp add: timer_secs_def base_config_def)
  have l: "lists ?h (tmpls model0) = [0]" by (simp add: store0_def)
  show ?thesis
    unfolding updated_model_def
    by (simp add: s t e r k f l Let_def del: set_setting_value.simps) (simp add: store0_def)
qed

theorem safe_update_model_isolates_one_failure_witness:
  "\<exists>m2 h2.
     safe_update_model
       [CheckboxSetting autoflip, ReCheckboxSetting timer, NumberEditSetting timer_secs]
       store0 model0 conf0 = Inr (m2, h2, [CouldNotFind ''timer'' ''style'' ''Basic''])
     \<and> front_blob h2 m2 = ''var autoflip = false; var seconds = 9 ;''"
proof -
  let ?h1 = "store0\<lparr>dicts := (dicts store0)(0 := (dicts store0 0)
        \<lparr>qfmt := ''var autoflip = false; var seconds = 15 ;''\<rparr>)\<rparr>"
  let ?h2 = "store0\<lparr>dicts := (dicts store0)(0 := (dicts store0 0)
        \<lparr>qfmt := ''var autoflip = false; var seconds = 9 ;''\<rparr>)\<rparr>"
  have n: "nt_name model0 = ''Basic''" by (simp add: model0_def)
  have a: "rewrites_applied [CheckboxSetting autoflip] store0 model0 conf0 = Inr (model0, ?h1)"
    by (simp add: n autoflip_updated0)
  have b: "relevant_template_text (ReCheckboxSetting timer) ?h1 model0 = Inr ''b { color: red; }''"
    by code_simp
  have c: "re_search (regex (config_of (ReCheckboxSetting timer))) ''b { color: red; }'' = None"
    by code_simp
  have d: "rewrites_applied [NumberEditSetting timer_secs] ?h1 model0 conf0 = Inr (model0, ?h2)"
    by (simp add: n timer_secs_updated0)
  have e: "name (config_of (ReCheckboxSetting timer)) = ''timer''"
    "cfile (config_of (ReCheckboxSetting timer)) = ''style''"
    by (simp_all add: timer_def base_config_def)
  have f: "front_blob ?h2 model0 = ''var autoflip = false; var seconds = 9 ;''"
    by (simp add: front_blob_def store0_def model0_def)
  from safe_update_model_isolates_one_failure [OF a b c d] e n f show ?thesis
    by (intro exI[of _ model0] exI[of _ ?h2]) simp
qed

section \<open>The read-in and a literal that is not an integer\<close>

text \<open>
  Claim C5. The read-in should record every value that decodes and collect an entry for
  every descriptor that fails, whatever the failure. Its loop collects the
  \<open>NotetypeParseException\<close> only. In \<open>store1\<close> the timer duration is written
  \<^verbatim>\<open>1.5\<close>: the number codec raises \<open>ValueError\<close>, which leaves the whole read-in, so
  nothing is reported and the setting \<open>autoflip\<close>, which comes after it and decodes to
  true, is never recorded.
\<close>

theorem read_in_aborts_on_value_error:
  "read_in_settings_from_notetypes sbn0 scs0 tpls0 by_name0 store1 Map.empty = Inl ValueError
   \<and> setting_value (NumberEditSetting timer_secs) store1 model0 = Inl ValueError
   \<and> setting_value (CheckboxSetting autoflip) store1 model0 = Inr (VBool True)"
proof -
  have "(case read_in_settings_from_notetypes sbn0 scs0 tpls0 by_name0 store1 Map.empty of
     Inl e \<Rightarrow> e = ValueError | Inr x \<Rightarrow> False)"
    by code_simp
  then have a: "read_in_settings_from_notetypes sbn0 scs0 tpls0 by_name0 store1 Map.empty =
      Inl ValueError"
    by (cases "read_in_settings_from_notetypes sbn0 scs0 tpls0 by_name0 store1 Map.empty") auto
  have b: "setting_value (NumberEditSetting timer_secs) store1 model0 = Inl ValueError"
    by code_simp
  have c: "setting_value (CheckboxSetting autoflip) store1 model0 = Inr (VBool True)"
    by code_simp
  from a b c show ?thesis by simp
qed

section \<open>Properties of the stable sort with a key that may raise\<close>

lemma collect_total:
  "\<forall>x\<in>set xs. f x = Inr (g x) \<Longrightarrow> collect (map f xs) = Inr (map g xs)"
  by (induction xs) auto

lemma collect_Inl:
  "x \<in> set xs \<Longrightarrow> \<forall>y\<in>set xs. f y = Inl e \<or> (\<exists>k. f y = Inr k) \<Longrightarrow> f x = Inl e
     \<Longrightarrow> collect (map f xs) = Inl e"
proof (induction xs)
  case Nil
  then show ?case by simp
next
  case (Cons a xs)
  show ?case
  proof (cases "f a")
    case (Inl e')
    with Cons.prems show ?thesis by auto
  next
    case (Inr k)
    with Cons.prems have "x \<in> set xs" by auto
    with Cons Inr show ?thesis by auto
  qed
qed

lemma insort_key_pairs:
  "insort_key fst (g x, x) (map (\<lambda>y. (g y, y)) ys) = map (\<lambda>y. (g y, y)) (insort_key g x ys)"
  by (induction ys) auto

lemma sort_key_pairs:
  "sort_key fst (map (\<lambda>y. (g y, y)) xs) = map (\<lambda>y. (g y, y)) (sort_key g xs)"
  by (induction xs) (auto simp: insort_key_pairs)

lemma sorted_by_total:
  fixes g :: "'a \<Rightarrow> int"
  assumes "\<forall>x\<in>set xs. f x = Inr (g x)"
  shows "sorted_by f xs = Inr (sort_key g xs)"
proof -
  have "zip (map g xs) xs = map (\<lambda>y. (g y, y)) xs"
    by (induction xs) auto
  then have "map snd (sort_key fst (zip (map g xs) xs)) = sort_key g xs"
    by (simp add: sort_key_pairs comp_def)
  with collect_total[OF assms] show ?thesis by (simp add: sorted_by_def)
qed

lemma index_of_Some_iff:
  "index_of x xs = Some i \<longleftrightarrow> i < length xs \<and> xs ! i = x \<and> (\<forall>j<i. xs ! j \<noteq> x)"
proof (induction xs arbitrary: i)
  case Nil
  then show ?case by simp
next
  case (Cons y ys)
  show ?case
  proof (cases "y = x")
    case True
    then show ?thesis by (cases i) auto
  next
    case False
    show ?thesis
    proof (cases i)
      case 0
      with False show ?thesis by simp
    next
      case (Suc k)
      have "(\<forall>j<Suc k. (y # ys) ! j \<noteq> x) \<longleftrightarrow> (\<forall>j<k. ys ! j \<noteq> x)"
        using False by (auto simp: less_Suc_eq_0_disj)
      with False Suc Cons.IH[of k] show ?thesis by auto
    qed
  qed
qed

lemma index_of_None_iff: "index_of x xs = None \<longleftrightarrow> x \<notin> set xs"
  by (induction xs) auto

lemma filter_not_in_filter:
  "filter (\<lambda>x. x \<notin> set (filter P xs)) xs = filter (\<lambda>x. \<not> P x) xs"
  by (rule filter_cong) auto

lemma field_key_tagged:
  "tagged (configurable_field_name (config_of nts)) \<Longrightarrow>
   field_key names nts = Inr (projr (field_key names nts))"
  by (auto simp: field_key_def tagged_def split: option.splits)

lemma field_key_eq_iff:
  "tagged (configurable_field_name (config_of nts)) \<Longrightarrow>
   (field_key names nts = Inr k) = (projr (field_key names nts) = k)"
  by (auto simp: field_key_def tagged_def split: option.splits)

lemma adjust_configurable_field_eq:
  assumes "configurable_fields_for_notetype tpls notetype_name = Inr names"
  shows "adjust_configurable_field_nts_order tpls ntss notetype_name =
     Inr (filter (\<lambda>nts. \<not> tagged (configurable_field_name (config_of nts))) ntss @
          sort_key (\<lambda>nts. projr (field_key names nts))
            (filter (\<lambda>nts. tagged (configurable_field_name (config_of nts))) ntss))"
proof -
  have "sorted_by (field_key names)
          (filter (\<lambda>nts. tagged (configurable_field_name (config_of nts))) ntss) =
        Inr (sort_key (\<lambda>nts. projr (field_key names nts))
          (filter (\<lambda>nts. tagged (configurable_field_name (config_of nts))) ntss))"
    by (rule sorted_by_total) (auto intro: field_key_tagged)
  with assms show ?thesis
    unfolding adjust_configurable_field_nts_order_def Let_def filter_not_in_filter
    by simp
qed

lemma field_key_stable:
  "filter (\<lambda>nts. field_key names nts = Inr k)
     (sort_key (\<lambda>nts. projr (field_key names nts))
        (filter (\<lambda>nts. tagged (configurable_field_name (config_of nts))) ntss)) =
   filter (\<lambda>nts. field_key names nts = Inr k)
     (filter (\<lambda>nts. tagged (configurable_field_name (config_of nts))) ntss)"
proof -
  let ?T = "\<lambda>nts. tagged (configurable_field_name (config_of nts))"
  let ?g = "\<lambda>nts. projr (field_key names nts)"
  have "filter (\<lambda>nts. field_key names nts = Inr k) (sort_key ?g (filter ?T ntss)) =
      filter (\<lambda>nts. ?g nts = k) (sort_key ?g (filter ?T ntss))"
  proof (rule filter_cong[OF refl])
    fix x assume "x \<in> set (sort_key ?g (filter ?T ntss))"
    then have "?T x" by simp
    then show "(field_key names x = Inr k) = (?g x = k)" by (rule field_key_eq_iff)
  qed
  also have "\<dots> = filter (\<lambda>nts. ?g nts = k) (filter ?T ntss)"
    by (rule sort_key_stable)
  also have "\<dots> = filter (\<lambda>nts. field_key names nts = Inr k) (filter ?T ntss)"
  proof (rule filter_cong[OF refl])
    fix x assume "x \<in> set (filter ?T ntss)"
    then have "?T x" by simp
    then show "(?g x = k) = (field_key names x = Inr k)" by (rule field_key_eq_iff[symmetric])
  qed
  finally show ?thesis .
qed

lemma field_key_index:
  assumes "configurable_field_name (config_of nts) = Some n"
  shows "(field_key names nts = Inr (- 1)) = (n \<notin> set names)"
    and "(field_key names nts = Inr (int i)) =
        (i < length names \<and> names ! i = n \<and> (\<forall>j<i. names ! j \<noteq> n))"
proof -
  have k: "field_key names nts =
      (case index_of n names of None \<Rightarrow> Inr (- 1) | Some i \<Rightarrow> Inr (int i))"
    using assms by (simp add: field_key_def)
  show "(field_key names nts = Inr (- 1)) = (n \<notin> set names)"
    unfolding k using index_of_None_iff[of n names]
    by (cases "index_of n names") simp_all
  show "(field_key names nts = Inr (int i)) =
        (i < length names \<and> names ! i = n \<and> (\<forall>j<i. names ! j \<noteq> n))"
    unfolding k using index_of_Some_iff[of n names i]
    by (cases "index_of n names") simp_all
qed

lemma field_order_idempotent:
  assumes "configurable_fields_for_notetype tpls notetype_name = Inr names"
  shows "adjust_configurable_field_nts_order tpls
      (filter (\<lambda>nts. \<not> tagged (configurable_field_name (config_of nts))) ntss @
       sort_key (\<lambda>nts. projr (field_key names nts))
         (filter (\<lambda>nts. tagged (configurable_field_name (config_of nts))) ntss))
      notetype_name =
    Inr (filter (\<lambda>nts. \<not> tagged (configurable_field_name (config_of nts))) ntss @
       sort_key (\<lambda>nts. projr (field_key names nts))
         (filter (\<lambda>nts. tagged (configurable_field_name (config_of nts))) ntss))"
proof -
  let ?T = "\<lambda>nts. tagged (configurable_field_name (config_of nts))"
  let ?g = "\<lambda>nts. projr (field_key names nts)"
  let ?others = "filter (\<lambda>nts. \<not> ?T nts) ntss"
  let ?fields = "sort_key ?g (filter ?T ntss)"
  have tf: "\<forall>x\<in>set ?fields. ?T x" by simp
  have 1: "filter ?T (?others @ ?fields) = ?fields"
    using tf by (simp add: filter_id_conv)
  have 2: "filter (\<lambda>nts. \<not> ?T nts) (?others @ ?fields) = ?others"
    using tf by (simp add: filter_empty_conv)
  have 3: "sort_key ?g ?fields = ?fields"
    by (rule sort_key_id_if_sorted) (rule sorted_sort_key)
  show ?thesis
    unfolding adjust_configurable_field_eq[OF assms] 1 2 3 ..
qed

section \<open>The order of the configurable-field settings\<close>

text \<open>
  Claim C9. Let \<open>names\<close> be the field names that \<open>configurable_fields_for_notetype\<close>
  enumerates for the note type. The key of a tagged setting is the index of the first
  occurrence of its field name in \<open>names\<close>, and -1 when the name does not occur. The
  ordering returns the untagged settings in their order, followed by the tagged ones
  sorted by this key: the keys of the tagged part ascend (so the settings with -1 come
  before all matched ones), and the settings of one key keep the order they had (the sort
  is stable). Ordering the result again returns it unchanged.
\<close>

theorem configurable_field_order:
  assumes "configurable_fields_for_notetype tpls notetype_name = Inr names"
  shows "\<exists>fields ks.
      adjust_configurable_field_nts_order tpls ntss notetype_name =
        Inr (filter (\<lambda>nts. \<not> tagged (configurable_field_name (config_of nts))) ntss @ fields)
    \<and> collect (map (field_key names) fields) = Inr ks \<and> sorted ks
    \<and> (\<forall>k. filter (\<lambda>nts. field_key names nts = Inr k) fields =
            filter (\<lambda>nts. field_key names nts = Inr k)
              (filter (\<lambda>nts. tagged (configurable_field_name (config_of nts))) ntss))
    \<and> (\<forall>nts n. configurable_field_name (config_of nts) = Some n \<longrightarrow>
          (field_key names nts = Inr (- 1) \<longleftrightarrow> n \<notin> set names)
        \<and> (\<forall>i. field_key names nts = Inr (int i) \<longleftrightarrow>
                i < length names \<and> names ! i = n \<and> (\<forall>j<i. names ! j \<noteq> n)))
    \<and> adjust_configurable_field_nts_order tpls
        (filter (\<lambda>nts. \<not> tagged (configurable_field_name (config_of nts))) ntss @ fields)
        notetype_name =
        Inr (filter (\<lambda>nts. \<not> tagged (configurable_field_name (config_of nts))) ntss @ fields)"
proof (intro exI conjI allI impI)
  let ?T = "\<lambda>nts. tagged (configurable_field_name (config_of nts))"
  let ?g = "\<lambda>nts. projr (field_key names nts)"
  let ?fields = "sort_key ?g (filter ?T ntss)"
  show "adjust_configurable_field_nts_order tpls ntss notetype_name =
        Inr (filter (\<lambda>nts. \<not> ?T nts) ntss @ ?fields)"
    by (rule adjust_configurable_field_eq[OF assms])
  show "collect (map (field_key names) ?fields) = Inr (map ?g ?fields)"
  proof (rule collect_total, rule ballI)
    fix x assume "x \<in> set ?fields"
    then have "?T x" by simp
    then show "field_key names x = Inr (?g x)" by (rule field_key_tagged)
  qed
  show "sorted (map ?g ?fields)" by (rule sorted_sort_key)
  show "filter (\<lambda>nts. field_key names nts = Inr k) ?fields =
      filter (\<lambda>nts. field_key names nts = Inr k) (filter ?T ntss)" for k
    by (rule field_key_stable)
  show "(field_key names nts = Inr (- 1)) = (n \<notin> set names)"
    if "configurable_field_name (config_of nts) = Some n" for nts n
    by (rule field_key_index(1)[OF that])
  show "(field_key names nts = Inr (int i)) =
        (i < length names \<and> names ! i = n \<and> (\<forall>j<i. names ! j \<noteq> n))"
    if "configurable_field_name (config_of nts) = Some n" for nts n i
    by (rule field_key_index(2)[OF that])
  show "adjust_configurable_field_nts_order tpls
        (filter (\<lambda>nts. \<not> ?T nts) ntss @ ?fields) notetype_name =
        Inr (filter (\<lambda>nts. \<not> ?T nts) ntss @ ?fields)"
    by (rule field_order_idempotent[OF assms])
qed

lemma fields1: "configurable_fields_for_notetype tpls1 ''Basic'' = Inr [''Extra'', ''Pix'']"
  by code_simp

lemma odict1: "btn_name_to_shortcut_odict tpls1 ''Basic'' = Inr [(''Pix'', ''Alt+1''), (''Extra'', ''Alt+2'')]"
  by code_simp

theorem configurable_field_order_witness:
  "configurable_fields_for_notetype tpls1 ''Basic'' = Inr [''Extra'', ''Pix'']
   \<and> adjust_configurable_field_nts_order tpls1
       [CheckboxSetting (button_auto_reveal_setting_config ''Pix'' False),
        CheckboxSetting autoflip,
        CheckboxSetting (button_auto_reveal_setting_config ''Extra'' False),
        CheckboxSetting (button_auto_reveal_setting_config ''Other'' False)] ''Basic'' =
     Inr [CheckboxSetting autoflip,
          CheckboxSetting (button_auto_reveal_setting_config ''Other'' False),
          CheckboxSetting (button_auto_reveal_setting_config ''Extra'' False),
          CheckboxSetting (button_auto_reveal_setting_config ''Pix'' False)]"
proof -
  let ?ntss = "[CheckboxSetting (button_auto_reveal_setting_config ''Pix'' False),
        CheckboxSetting autoflip,
        CheckboxSetting (button_auto_reveal_setting_config ''Extra'' False),
        CheckboxSetting (button_auto_reveal_setting_config ''Other'' False)]"
  have t: "tagged (configurable_field_name (button_auto_reveal_setting_config n False)) = (n \<noteq> [])" for n
    by (simp add: tagged_def button_auto_reveal_setting_config_def base_config_def)
  have u: "\<not> tagged (configurable_field_name autoflip)"
    by (simp add: tagged_def autoflip_def base_config_def)
  have k: "field_key [''Extra'', ''Pix''] (CheckboxSetting (button_auto_reveal_setting_config n False)) =
      (case index_of n [''Extra'', ''Pix''] of None \<Rightarrow> Inr (- 1) | Some i \<Rightarrow> Inr (int i))" for n
    by (simp add: field_key_def button_auto_reveal_setting_config_def base_config_def)
  from configurable_field_order [OF fields1, of ?ntss]
  obtain fields ks where
    a: "adjust_configurable_field_nts_order tpls1 ?ntss ''Basic'' = Inr ([CheckboxSetting autoflip] @ fields)"
    and b: "collect (map (field_key [''Extra'', ''Pix'']) fields) = Inr ks" "sorted ks"
    and c: "\<forall>k. filter (\<lambda>nts. field_key [''Extra'', ''Pix''] nts = Inr k) fields =
            filter (\<lambda>nts. field_key [''Extra'', ''Pix''] nts = Inr k)
              (filter (\<lambda>nts. tagged (configurable_field_name (config_of nts))) ?ntss)"
    by (auto simp: t u)
  have e: "adjust_configurable_field_nts_order tpls1 ?ntss ''Basic'' =
     Inr [CheckboxSetting autoflip,
          CheckboxSetting (button_auto_reveal_setting_config ''Other'' False),
          CheckboxSetting (button_auto_reveal_setting_config ''Extra'' False),
          CheckboxSetting (button_auto_reveal_setting_config ''Pix'' False)]"
    unfolding adjust_configurable_field_eq[OF fields1]
    by (simp add: t u k)
  from a e fields1 show ?thesis by simp
qed

lemma hint_key_present:
  "hint_button_setting (config_of nts) = Some n \<Longrightarrow> n \<in> set names \<Longrightarrow>
   hint_key names nts = Inr (projr (hint_key names nts))"
  by (cases "index_of n names") (auto simp: hint_key_def index_of_None_iff)

lemma hint_key_absent:
  "hint_button_setting (config_of nts) = Some n \<Longrightarrow> n \<notin> set names \<Longrightarrow>
   hint_key names nts = Inl ValueError"
  using index_of_None_iff[of n names] by (simp add: hint_key_def)

lemma hint_key_eq_iff:
  "hint_button_setting (config_of nts) = Some n \<Longrightarrow> n \<in> set names \<Longrightarrow>
   (hint_key names nts = Inr k) = (projr (hint_key names nts) = k)"
  by (cases "index_of n names") (auto simp: hint_key_def index_of_None_iff)

lemma hint_key_index:
  assumes "hint_button_setting (config_of nts) = Some n"
  shows "(hint_key names nts = Inr (int i)) =
        (i < length names \<and> names ! i = n \<and> (\<forall>j<i. names ! j \<noteq> n))"
proof -
  have k: "hint_key names nts =
      (case index_of n names of None \<Rightarrow> Inl ValueError | Some i \<Rightarrow> Inr (int i))"
    using assms by (simp add: hint_key_def)
  show ?thesis
    unfolding k using index_of_Some_iff[of n names i]
    by (cases "index_of n names") simp_all
qed

lemma tagged_Some: "tagged t \<Longrightarrow> \<exists>n. t = Some n \<and> n \<noteq> []"
  by (cases t) (auto simp: tagged_def)

lemma adjust_hint_button_eq:
  assumes "btn_name_to_shortcut_odict tpls notetype_name = Inr odict"
    and "\<forall>nts\<in>set ntss. \<forall>n. hint_button_setting (config_of nts) = Some n \<longrightarrow> n \<noteq> [] \<longrightarrow>
           n \<in> set (map fst odict)"
  shows "adjust_hint_button_nts_order tpls ntss notetype_name =
     Inr (sort_key (\<lambda>nts. projr (hint_key (map fst odict) nts))
            (filter (\<lambda>nts. tagged (hint_button_setting (config_of nts))) ntss) @
          filter (\<lambda>nts. \<not> tagged (hint_button_setting (config_of nts))) ntss)"
proof -
  have "sorted_by (hint_key (map fst odict))
          (filter (\<lambda>nts. tagged (hint_button_setting (config_of nts))) ntss) =
        Inr (sort_key (\<lambda>nts. projr (hint_key (map fst odict) nts))
          (filter (\<lambda>nts. tagged (hint_button_setting (config_of nts))) ntss))"
  proof (rule sorted_by_total, rule ballI)
    fix x assume "x \<in> set (filter (\<lambda>nts. tagged (hint_button_setting (config_of nts))) ntss)"
    then have x: "x \<in> set ntss" "tagged (hint_button_setting (config_of x))" by simp_all
    from tagged_Some[OF x(2)] obtain n where n: "hint_button_setting (config_of x) = Some n" "n \<noteq> []"
      by blast
    with assms(2) x(1) have "n \<in> set (map fst odict)" by blast
    with n(1) show "hint_key (map fst odict) x = Inr (projr (hint_key (map fst odict) x))"
      by (rule hint_key_present)
  qed
  with assms(1) show ?thesis
    unfolding adjust_hint_button_nts_order_def Let_def filter_not_in_filter
    by simp
qed

lemma hint_key_stable:
  assumes "\<forall>nts\<in>set ntss. \<forall>n. hint_button_setting (config_of nts) = Some n \<longrightarrow> n \<noteq> [] \<longrightarrow>
           n \<in> set names"
  shows "filter (\<lambda>nts. hint_key names nts = Inr k)
     (sort_key (\<lambda>nts. projr (hint_key names nts))
        (filter (\<lambda>nts. tagged (hint_button_setting (config_of nts))) ntss)) =
   filter (\<lambda>nts. hint_key names nts = Inr k)
     (filter (\<lambda>nts. tagged (hint_button_setting (config_of nts))) ntss)"
proof -
  let ?T = "\<lambda>nts. tagged (hint_button_setting (config_of nts))"
  let ?g = "\<lambda>nts. projr (hint_key names nts)"
  have eq: "(hint_key names x = Inr k) = (?g x = k)" if "x \<in> set (filter ?T ntss)" for x
  proof -
    from that have x: "x \<in> set ntss" "?T x" by simp_all
    from tagged_Some[OF x(2)] obtain n where n: "hint_button_setting (config_of x) = Some n" "n \<noteq> []"
      by blast
    with assms x(1) have "n \<in> set names" by blast
    with n(1) show ?thesis by (rule hint_key_eq_iff)
  qed
  have "filter (\<lambda>nts. hint_key names nts = Inr k) (sort_key ?g (filter ?T ntss)) =
      filter (\<lambda>nts. ?g nts = k) (sort_key ?g (filter ?T ntss))"
  proof (rule filter_cong[OF refl])
    fix x assume "x \<in> set (sort_key ?g (filter ?T ntss))"
    then have "x \<in> set (filter ?T ntss)" by simp
    then show "(hint_key names x = Inr k) = (?g x = k)" by (rule eq)
  qed
  also have "\<dots> = filter (\<lambda>nts. ?g nts = k) (filter ?T ntss)"
    by (rule sort_key_stable)
  also have "\<dots> = filter (\<lambda>nts. hint_key names nts = Inr k) (filter ?T ntss)"
  proof (rule filter_cong[OF refl])
    fix x assume "x \<in> set (filter ?T ntss)"
    then show "(?g x = k) = (hint_key names x = Inr k)" by (rule eq[symmetric])
  qed
  finally show ?thesis .
qed

section \<open>The order of the hint-button settings\<close>

text \<open>
  Claim C8, as the code has it. Let \<open>odict\<close> be the \<^verbatim>\<open>ButtonShortcuts\<close> mapping read from
  the back template, and let the button name of every hint-button setting occur among
  its keys. Then the ordering returns the hint-button settings first, sorted by the index
  of the first occurrence of their button name among the keys (settings of one button
  keep the order they had), followed by the other settings in the order they had.
\<close>

theorem hint_button_order:
  assumes "btn_name_to_shortcut_odict tpls notetype_name = Inr odict"
    and "\<forall>nts\<in>set ntss. \<forall>n. hint_button_setting (config_of nts) = Some n \<longrightarrow> n \<noteq> [] \<longrightarrow>
           n \<in> set (map fst odict)"
  shows "\<exists>hints ks.
      adjust_hint_button_nts_order tpls ntss notetype_name =
        Inr (hints @ filter (\<lambda>nts. \<not> tagged (hint_button_setting (config_of nts))) ntss)
    \<and> collect (map (hint_key (map fst odict)) hints) = Inr ks \<and> sorted ks
    \<and> (\<forall>k. filter (\<lambda>nts. hint_key (map fst odict) nts = Inr k) hints =
            filter (\<lambda>nts. hint_key (map fst odict) nts = Inr k)
              (filter (\<lambda>nts. tagged (hint_button_setting (config_of nts))) ntss))
    \<and> (\<forall>nts n i. hint_button_setting (config_of nts) = Some n \<longrightarrow>
          (hint_key (map fst odict) nts = Inr (int i) \<longleftrightarrow>
             i < length odict \<and> fst (odict ! i) = n \<and> (\<forall>j<i. fst (odict ! j) \<noteq> n)))"
proof (intro exI conjI allI impI)
  let ?T = "\<lambda>nts. tagged (hint_button_setting (config_of nts))"
  let ?names = "map fst odict"
  let ?g = "\<lambda>nts. projr (hint_key ?names nts)"
  let ?hints = "sort_key ?g (filter ?T ntss)"
  show "adjust_hint_button_nts_order tpls ntss notetype_name =
        Inr (?hints @ filter (\<lambda>nts. \<not> ?T nts) ntss)"
    by (rule adjust_hint_button_eq[OF assms])
  show "collect (map (hint_key ?names) ?hints) = Inr (map ?g ?hints)"
  proof (rule collect_total, rule ballI)
    fix x assume "x \<in> set ?hints"
    then have x: "x \<in> set ntss" "?T x" by simp_all
    from tagged_Some[OF x(2)] obtain n where n: "hint_button_setting (config_of x) = Some n" "n \<noteq> []"
      by blast
    with assms(2) x(1) have "n \<in> set ?names" by blast
    with n(1) show "hint_key ?names x = Inr (?g x)" by (rule hint_key_present)
  qed
  show "sorted (map ?g ?hints)" by (rule sorted_sort_key)
  show "filter (\<lambda>nts. hint_key ?names nts = Inr k) ?hints =
      filter (\<lambda>nts. hint_key ?names nts = Inr k) (filter ?T ntss)" for k
    by (rule hint_key_stable[OF assms(2)])
  show "(hint_key ?names nts = Inr (int i)) =
        (i < length odict \<and> fst (odict ! i) = n \<and> (\<forall>j<i. fst (odict ! j) \<noteq> n))"
    if h: "hint_button_setting (config_of nts) = Some n" for nts n i
  proof -
    have "(i < length ?names \<and> ?names ! i = n \<and> (\<forall>j<i. ?names ! j \<noteq> n)) =
        (i < length odict \<and> fst (odict ! i) = n \<and> (\<forall>j<i. fst (odict ! j) \<noteq> n))"
      by auto
    with hint_key_index[OF h, of ?names i] show ?thesis by simp
  qed
qed

lemma hint_other1:
  "adjust_hint_button_nts_order tpls1
     [ShortcutSetting (hint_shortcut ''Extra''), ShortcutSetting (hint_shortcut ''Other'')]
     ''Basic'' = Inl ValueError"
proof -
  have t: "tagged (hint_button_setting (hint_shortcut n)) = (n \<noteq> [])" for n
    by (simp add: tagged_def hint_shortcut_def base_config_def)
  have k: "hint_key [''Pix'', ''Extra''] (ShortcutSetting (hint_shortcut n)) =
      (case index_of n [''Pix'', ''Extra''] of None \<Rightarrow> Inl ValueError | Some i \<Rightarrow> Inr (int i))" for n
    by (simp add: hint_key_def hint_shortcut_def base_config_def)
  show ?thesis
    by (simp add: adjust_hint_button_nts_order_def odict1 Let_def t k sorted_by_def)
qed

text \<open>
  Claim C8 says that a hint-button setting whose button name is not a key of the mapping
  is placed at the end instead of raising. The key function is \<^verbatim>\<open>list.index\<close>, which
  raises \<open>ValueError\<close> for a name that is not in the list: with the mapping of \<open>tpls1\<close>
  (keys \<^verbatim>\<open>Pix\<close> and \<^verbatim>\<open>Extra\<close>) the settings of the buttons \<^verbatim>\<open>Extra\<close> and \<^verbatim>\<open>Other\<close> are
  not ordered at all.
\<close>

theorem hint_button_order_counterexample:
  "btn_name_to_shortcut_odict tpls1 ''Basic'' = Inr [(''Pix'', ''Alt+1''), (''Extra'', ''Alt+2'')]
   \<and> adjust_hint_button_nts_order tpls1
       [ShortcutSetting (hint_shortcut ''Extra''), ShortcutSetting (hint_shortcut ''Other'')]
       ''Basic'' = Inl ValueError"
  using odict1 hint_other1 by simp

theorem hint_button_order_witness:
  "btn_name_to_shortcut_odict tpls1 ''Basic'' = Inr [(''Pix'', ''Alt+1''), (''Extra'', ''Alt+2'')]
   \<and> adjust_hint_button_nts_order tpls1
       [ShortcutSetting (hint_shortcut ''Extra''), CheckboxSetting autoflip,
        ShortcutSetting (hint_shortcut ''Pix'')] ''Basic'' =
     Inr [ShortcutSetting (hint_shortcut ''Pix''), ShortcutSetting (hint_shortcut ''Extra''),
          CheckboxSetting autoflip]"
proof -
  let ?ntss = "[ShortcutSetting (hint_shortcut ''Extra''), CheckboxSetting autoflip,
        ShortcutSetting (hint_shortcut ''Pix'')]"
  have t: "tagged (hint_button_setting (hint_shortcut n)) = (n \<noteq> [])" for n
    by (simp add: tagged_def hint_shortcut_def base_config_def)
  have u: "\<not> tagged (hint_button_setting autoflip)"
    by (simp add: tagged_def autoflip_def base_config_def)
  have hs: "hint_button_setting (hint_shortcut n) = Some n" for n
    by (simp add: hint_shortcut_def base_config_def)
  have ha: "hint_button_setting autoflip = None"
    by (simp add: autoflip_def base_config_def)
  have k: "hint_key [''Pix'', ''Extra''] (ShortcutSetting (hint_shortcut n)) =
      (case index_of n [''Pix'', ''Extra''] of None \<Rightarrow> Inl ValueError | Some i \<Rightarrow> Inr (int i))" for n
    by (simp add: hint_key_def hint_shortcut_def base_config_def)
  have p: "\<forall>nts\<in>set ?ntss. \<forall>n. hint_button_setting (config_of nts) = Some n \<longrightarrow> n \<noteq> [] \<longrightarrow>
           n \<in> set (map fst [(''Pix'', ''Alt+1''), (''Extra'', ''Alt+2'')])"
    by (simp add: hs ha)
  from hint_button_order [OF odict1 p]
  obtain hints where
    a: "adjust_hint_button_nts_order tpls1 ?ntss ''Basic'' = Inr (hints @ [CheckboxSetting autoflip])"
    by (auto simp: t u)
  have e: "adjust_hint_button_nts_order tpls1 ?ntss ''Basic'' =
     Inr [ShortcutSetting (hint_shortcut ''Pix''), ShortcutSetting (hint_shortcut ''Extra''),
          CheckboxSetting autoflip]"
    unfolding adjust_hint_button_eq[OF odict1 p]
    by (simp add: t u k)
  from a e odict1 show ?thesis by simp
qed

section \<open>Round trip of the codecs\<close>





















lemma splice_read:
  "a \<le> length s \<Longrightarrow> take (a + length w - a) (drop a (take a s @ w @ t)) = w"
  by simp

lemma span_encode:
  assumes "span1 r s = Some (a, b)"
  shows "slice_to (int a) s @ w @ slice_from (int b) s = take a s @ w @ drop b s"
  by (simp add: slice_to_def slice_from_def)












end
